theory Spec2Isabelle
  imports Complex_Main "HOL-Library.Multiset"
begin

section \<open>JavaScript numbers\<close>

text \<open>
  Every numeric value of the optimizer is a JavaScript \<^verbatim>\<open>number\<close>. The model keeps the
  three special values of that type apart from the finite ones, because the metric
  formulas divide by quantities that can be zero: \<open>NaN\<close>, \<open>PInf\<close> (\<^verbatim>\<open>Infinity\<close>) and
  \<open>NInf\<close> (\<^verbatim>\<open>-Infinity\<close>). A finite double is modelled by the real number it denotes.
  An arithmetic result overflows to an infinity when its magnitude reaches
  \<open>2^1024 - 2^970\<close>, the midpoint between the largest double and \<open>2^1024\<close> from which
  rounding to nearest gives an infinity; below that the result is kept exact (no
  rounding, no underflow). The two zeros are not told apart (a zero divisor is read as
  \<^verbatim>\<open>+0\<close>).
\<close>

datatype number = Fin real | PInf | NInf | NaN

fun isFinite :: "number \<Rightarrow> bool" where
  "isFinite (Fin a) = True"
| "isFinite PInf = False"
| "isFinite NInf = False"
| "isFinite NaN = False"

fun jneg :: "number \<Rightarrow> number" where
  "jneg (Fin a) = Fin (- a)"
| "jneg PInf = NInf"
| "jneg NInf = PInf"
| "jneg NaN = NaN"

text \<open>The infinity with the sign of a non-zero real.\<close>

definition signedInf :: "real \<Rightarrow> number" where
  "signedInf a = (if 0 < a then PInf else NInf)"

text \<open>The number for the exact result \<open>x\<close> of an operation on finite numbers.\<close>

definition overflows :: "real \<Rightarrow> bool" where
  "overflows x \<longleftrightarrow> 2 ^ 1024 - 2 ^ 970 \<le> \<bar>x\<bar>"

definition fin :: "real \<Rightarrow> number" where
  "fin x = (if overflows x then signedInf x else Fin x)"

text \<open>\<^verbatim>\<open>a + b\<close>\<close>

fun jadd :: "number \<Rightarrow> number \<Rightarrow> number" where
  "jadd NaN b = NaN"
| "jadd a NaN = NaN"
| "jadd (Fin a) (Fin b) = fin (a + b)"
| "jadd (Fin a) PInf = PInf"
| "jadd (Fin a) NInf = NInf"
| "jadd PInf (Fin b) = PInf"
| "jadd NInf (Fin b) = NInf"
| "jadd PInf PInf = PInf"
| "jadd NInf NInf = NInf"
| "jadd PInf NInf = NaN"
| "jadd NInf PInf = NaN"

text \<open>\<^verbatim>\<open>a - b\<close>\<close>

definition jsub :: "number \<Rightarrow> number \<Rightarrow> number" where
  "jsub a b = jadd a (jneg b)"

text \<open>\<^verbatim>\<open>a * b\<close>\<close>

fun jmul :: "number \<Rightarrow> number \<Rightarrow> number" where
  "jmul NaN b = NaN"
| "jmul a NaN = NaN"
| "jmul (Fin a) (Fin b) = fin (a * b)"
| "jmul (Fin a) PInf = (if a = 0 then NaN else signedInf a)"
| "jmul (Fin a) NInf = (if a = 0 then NaN else signedInf (- a))"
| "jmul PInf (Fin b) = (if b = 0 then NaN else signedInf b)"
| "jmul NInf (Fin b) = (if b = 0 then NaN else signedInf (- b))"
| "jmul PInf PInf = PInf"
| "jmul NInf NInf = PInf"
| "jmul PInf NInf = NInf"
| "jmul NInf PInf = NInf"

text \<open>\<^verbatim>\<open>a / b\<close>: \<^verbatim>\<open>0 / 0\<close> and \<^verbatim>\<open>Infinity / Infinity\<close> are \<open>NaN\<close>, a non-zero value divided
  by zero is an infinity.\<close>

fun jdiv :: "number \<Rightarrow> number \<Rightarrow> number" where
  "jdiv NaN b = NaN"
| "jdiv a NaN = NaN"
| "jdiv (Fin a) (Fin b) =
     (if b \<noteq> 0 then fin (a / b) else if a = 0 then NaN else signedInf a)"
| "jdiv (Fin a) PInf = Fin 0"
| "jdiv (Fin a) NInf = Fin 0"
| "jdiv PInf (Fin b) = (if b < 0 then NInf else PInf)"
| "jdiv NInf (Fin b) = (if b < 0 then PInf else NInf)"
| "jdiv PInf PInf = NaN"
| "jdiv NInf NInf = NaN"
| "jdiv PInf NInf = NaN"
| "jdiv NInf PInf = NaN"

text \<open>\<^verbatim>\<open>Math.sqrt(a)\<close>\<close>

fun Math_sqrt :: "number \<Rightarrow> number" where
  "Math_sqrt (Fin a) = (if a < 0 then NaN else Fin (sqrt a))"
| "Math_sqrt PInf = PInf"
| "Math_sqrt NInf = NaN"
| "Math_sqrt NaN = NaN"

text \<open>\<^verbatim>\<open>Math.pow(a, 2)\<close>\<close>

fun Math_pow2 :: "number \<Rightarrow> number" where
  "Math_pow2 (Fin a) = fin (a\<^sup>2)"
| "Math_pow2 PInf = PInf"
| "Math_pow2 NInf = PInf"
| "Math_pow2 NaN = NaN"

text \<open>\<^verbatim>\<open>a < b\<close>: false as soon as one side is \<open>NaN\<close>.\<close>

fun jlt :: "number \<Rightarrow> number \<Rightarrow> bool" where
  "jlt NaN b = False"
| "jlt a NaN = False"
| "jlt (Fin a) (Fin b) = (a < b)"
| "jlt (Fin a) PInf = True"
| "jlt (Fin a) NInf = False"
| "jlt PInf b = False"
| "jlt NInf (Fin b) = True"
| "jlt NInf PInf = True"
| "jlt NInf NInf = False"

text \<open>\<^verbatim>\<open>a === b\<close> on numbers: \<open>NaN\<close> equals nothing, not even itself.\<close>

definition jeq :: "number \<Rightarrow> number \<Rightarrow> bool" where
  "jeq a b = (a \<noteq> NaN \<and> a = b)"

text \<open>\<^verbatim>\<open>a > b\<close>, \<^verbatim>\<open>a <= b\<close>, \<^verbatim>\<open>a >= b\<close>\<close>

definition jgt :: "number \<Rightarrow> number \<Rightarrow> bool" where
  "jgt a b = jlt b a"

definition jle :: "number \<Rightarrow> number \<Rightarrow> bool" where
  "jle a b = (jlt a b \<or> jeq a b)"

definition jge :: "number \<Rightarrow> number \<Rightarrow> bool" where
  "jge a b = jle b a"

text \<open>\<^verbatim>\<open>Math.min(a, b)\<close> and \<^verbatim>\<open>Math.max(a, b)\<close>: \<open>NaN\<close> if either argument is.\<close>

definition Math_min :: "number \<Rightarrow> number \<Rightarrow> number" where
  "Math_min a b = (if a = NaN \<or> b = NaN then NaN else if jlt b a then b else a)"

definition Math_max :: "number \<Rightarrow> number \<Rightarrow> number" where
  "Math_max a b = (if a = NaN \<or> b = NaN then NaN else if jlt a b then b else a)"

text \<open>The order of the numbers that are not \<open>NaN\<close> (used to state properties only).\<close>

definition num_le :: "number \<Rightarrow> number \<Rightarrow> bool" where
  "num_le a b \<longleftrightarrow> a \<noteq> NaN \<and> b \<noteq> NaN \<and> \<not> jlt b a"

text \<open>The \<^verbatim>\<open>length\<close> of an array, as a number.\<close>

definition jlength :: "'a list \<Rightarrow> number" where
  "jlength xs = Fin (real (length xs))"

section \<open>Performance metrics\<close>

record Metrics =
  sharpeRatio :: number
  sortinoRatio :: number
  calmarRatio :: number
  m_maxDrawdown :: number
  totalReturn :: number
  winRate :: number

text \<open>One iteration of the \<^verbatim>\<open>forEach\<close> that tracks the running peak of the compounded
  value; the state is \<open>(peak, maxDrawdown, currentValue)\<close>.\<close>

definition drawdown_step :: "number \<times> number \<times> number \<Rightarrow> number \<Rightarrow> number \<times> number \<times> number" where
  "drawdown_step s ret =
     (case s of (peak, maxDrawdown, currentValue) \<Rightarrow>
        let currentValue' = jmul currentValue (jadd (Fin 1) ret);
            peak' = (if jgt currentValue' peak then currentValue' else peak);
            drawdown = jdiv (jsub peak' currentValue') peak'
        in (peak', Math_max maxDrawdown drawdown, currentValue'))"

definition calculateMetrics :: "number list \<Rightarrow> Metrics" where
  "calculateMetrics returns =
     (let totalReturn = foldl (\<lambda>a b. jadd a b) (Fin 0) returns;
          avgReturn = jdiv totalReturn (jlength returns);
          stdDev = Math_sqrt
            (jdiv (foldl (\<lambda>a b. jadd a (Math_pow2 (jsub b avgReturn))) (Fin 0) returns)
                  (jlength returns));
          riskFreeRate = Fin (2 / 100);
          sharpeRatio = (if jeq stdDev (Fin 0) then Fin 0
             else jmul (jdiv (jsub avgReturn (jdiv riskFreeRate (Fin 252))) stdDev)
                       (Math_sqrt (Fin 252)));
          downsideReturns = filter (\<lambda>r. jlt r (Fin 0)) returns;
          downsideStdDev = Math_sqrt
            (jdiv (foldl (\<lambda>a b. jadd a (Math_pow2 b)) (Fin 0) downsideReturns)
                  (jlength returns));
          sortinoRatio = (if jeq downsideStdDev (Fin 0) then Fin 0
             else jmul (jdiv (jsub avgReturn (jdiv riskFreeRate (Fin 252))) downsideStdDev)
                       (Math_sqrt (Fin 252)));
          maxDrawdown = fst (snd (foldl drawdown_step (Fin 0, Fin 0, Fin 1) returns));
          calmarRatio = (if jeq maxDrawdown (Fin 0) then Fin 0
             else jdiv (jmul avgReturn (Fin 252)) maxDrawdown);
          winRate = jdiv (jlength (filter (\<lambda>r. jgt r (Fin 0)) returns)) (jlength returns)
      in \<lparr> sharpeRatio = sharpeRatio, sortinoRatio = sortinoRatio,
           calmarRatio = calmarRatio, m_maxDrawdown = maxDrawdown,
           totalReturn = totalReturn, winRate = winRate \<rparr>)"

text \<open>All six outputs are finite.\<close>

definition metrics_finite :: "Metrics \<Rightarrow> bool" where
  "metrics_finite m \<longleftrightarrow>
     isFinite (totalReturn m) \<and> isFinite (sharpeRatio m) \<and> isFinite (sortinoRatio m) \<and>
     isFinite (calmarRatio m) \<and> isFinite (m_maxDrawdown m) \<and> isFinite (winRate m)"

section \<open>Strategies and market data\<close>

datatype RiskLevel = Low | Medium | High

datatype RebalanceFrequency = Daily | Weekly | Monthly

text \<open>
  A strategy's display name is \<^verbatim>\<open>Strategy_<i>\<close> for the \<open>i\<close>-th member of the initial
  population and \<^verbatim>\<open>Strategy_<digits>\<close> for a child, the digits being printed from a
  random draw (\<^verbatim>\<open>Math.random().toString(36).substr(2, 9)\<close>). The model keeps the index or
  the draw instead of the printed text.
\<close>

datatype StrategyName = Strategy_index nat | Strategy_random real

record StrategyConfig =
  name :: StrategyName
  description :: string
  riskLevel :: RiskLevel
  maxPositionSize :: number
  stopLossPercentage :: number
  takeProfitPercentage :: number
  maxDrawdown :: number
  rebalanceFrequency :: RebalanceFrequency
  indicators :: "string list"

record MarketData =
  symbol :: string
  timestamp :: string
  "open" :: number
  high :: number
  low :: number
  close :: number
  volume :: number
  vwap :: number
  trades :: number

record OptimizationResult =
  parameters :: StrategyConfig
  metrics :: Metrics

text \<open>The exceptions: a \<^verbatim>\<open>TypeError\<close> of the runtime, and the
  \<^verbatim>\<open>Error('Optimization failed to find a solution')\<close> that \<^verbatim>\<open>optimize\<close> throws.\<close>

datatype error =
    TypeError
  | OptimizationFailed

text \<open>\<^verbatim>\<open>xs[i]\<close>: \<^verbatim>\<open>undefined\<close> (here \<open>None\<close>) outside the array. Reading a property of
  \<^verbatim>\<open>undefined\<close> throws a \<^verbatim>\<open>TypeError\<close>.\<close>

definition at_index :: "'a list \<Rightarrow> int \<Rightarrow> 'a option" where
  "at_index xs i = (if 0 \<le> i \<and> i < int (length xs) then Some (xs ! nat i) else None)"

text \<open>\<^verbatim>\<open>xs.slice(start, stop)\<close> for indices that are not negative.\<close>

definition slice :: "'a list \<Rightarrow> nat \<Rightarrow> nat \<Rightarrow> 'a list" where
  "slice xs start stop = take (stop - start) (drop start xs)"

section \<open>The backtest simulation\<close>

definition calculateSMA :: "MarketData list \<Rightarrow> number" where
  "calculateSMA data = jdiv (foldl (\<lambda>sum d. jadd sum (close d)) (Fin 0) data) (jlength data)"

text \<open>The local variables of the simulation loop. \<open>position\<close> is \<open>0\<close> (flat), \<open>1\<close> (long)
  or \<open>-1\<close> (short).\<close>

record sim_state =
  returns :: "number list"
  position :: int
  entryPrice :: number

definition stopLoss_of :: "StrategyConfig \<Rightarrow> int \<Rightarrow> number \<Rightarrow> number" where
  "stopLoss_of strategy pos entry =
     (if pos = 1
      then jmul entry (jsub (Fin 1) (jdiv (stopLossPercentage strategy) (Fin 100)))
      else jmul entry (jadd (Fin 1) (jdiv (stopLossPercentage strategy) (Fin 100))))"

definition takeProfit_of :: "StrategyConfig \<Rightarrow> int \<Rightarrow> number \<Rightarrow> number" where
  "takeProfit_of strategy pos entry =
     (if pos = 1
      then jmul entry (jadd (Fin 1) (jdiv (takeProfitPercentage strategy) (Fin 100)))
      else jmul entry (jsub (Fin 1) (jdiv (takeProfitPercentage strategy) (Fin 100))))"

text \<open>The exit condition of an open position: a threshold is touched by the bar.\<close>

definition exit_touched :: "int \<Rightarrow> MarketData \<Rightarrow> number \<Rightarrow> number \<Rightarrow> bool" where
  "exit_touched pos currentData stopLoss takeProfit \<longleftrightarrow>
     (pos = 1 \<and> jle (low currentData) stopLoss) \<or>
     (pos = - 1 \<and> jge (high currentData) stopLoss) \<or>
     (pos = 1 \<and> jge (high currentData) takeProfit) \<or>
     (pos = - 1 \<and> jle (low currentData) takeProfit)"

definition exitPrice_of :: "int \<Rightarrow> number \<Rightarrow> number \<Rightarrow> number" where
  "exitPrice_of pos stopLoss takeProfit =
     (if pos = 1 then Math_min stopLoss takeProfit else Math_max stopLoss takeProfit)"

text \<open>\<^verbatim>\<open>position * (exitPrice - entryPrice) / entryPrice\<close>\<close>

definition trade_return :: "int \<Rightarrow> number \<Rightarrow> number \<Rightarrow> number" where
  "trade_return pos exitPrice entry =
     jdiv (jmul (Fin (real_of_int pos)) (jsub exitPrice entry)) entry"

text \<open>The body of the loop at index \<open>i\<close>, where \<open>currentData\<close> is \<^verbatim>\<open>historicalData[i]\<close>.\<close>

definition sim_step ::
  "StrategyConfig \<Rightarrow> MarketData list \<Rightarrow> nat \<Rightarrow> MarketData \<Rightarrow> sim_state \<Rightarrow> sim_state" where
  "sim_step strategy historicalData i currentData st =
     (let sma20 = calculateSMA (slice historicalData (nat (max 0 (int i - 20))) (i + 1));
          sma50 = calculateSMA (slice historicalData (nat (max 0 (int i - 50))) (i + 1))
      in if position st = 0 then
           (if jgt sma20 sma50 then st\<lparr>position := 1, entryPrice := close currentData\<rparr>
            else if jlt sma20 sma50 then st\<lparr>position := - 1, entryPrice := close currentData\<rparr>
            else st)
         else
           (let stopLoss = stopLoss_of strategy (position st) (entryPrice st);
                takeProfit = takeProfit_of strategy (position st) (entryPrice st)
            in if exit_touched (position st) currentData stopLoss takeProfit then
                 (let exitPrice = exitPrice_of (position st) stopLoss takeProfit;
                      ret = trade_return (position st) exitPrice (entryPrice st)
                  in st\<lparr>returns := returns st @ [ret], position := 0\<rparr>)
               else st))"

text \<open>\<^verbatim>\<open>for (let i = ...; i < historicalData.length; i++)\<close>\<close>

function simulate_loop ::
  "StrategyConfig \<Rightarrow> MarketData list \<Rightarrow> nat \<Rightarrow> sim_state \<Rightarrow> error + sim_state" where
  "simulate_loop strategy historicalData i st =
     (if i < length historicalData then
        (case at_index historicalData (int i) of
           None \<Rightarrow> Inl TypeError
         | Some currentData \<Rightarrow>
             simulate_loop strategy historicalData (Suc i)
               (sim_step strategy historicalData i currentData st))
      else Inr st)"
  by pat_completeness auto
termination
  by (relation "measure (\<lambda>(strategy, historicalData, i, st). length historicalData - i)") auto

declare simulate_loop.simps [simp del]

text \<open>The simulation part of \<^verbatim>\<open>evaluateStrategy\<close>: the loop from index 1, started flat.\<close>

definition simulate :: "StrategyConfig \<Rightarrow> MarketData list \<Rightarrow> error + sim_state" where
  "simulate strategy historicalData =
     simulate_loop strategy historicalData 1 \<lparr>returns = [], position = 0, entryPrice = Fin 0\<rparr>"

text \<open>The array \<^verbatim>\<open>returns\<close> when the loop is left.\<close>

definition trade_returns :: "StrategyConfig \<Rightarrow> MarketData list \<Rightarrow> error + number list" where
  "trade_returns strategy historicalData =
     (case simulate strategy historicalData of Inl e \<Rightarrow> Inl e | Inr st \<Rightarrow> Inr (returns st))"

definition evaluateStrategy ::
  "StrategyConfig \<Rightarrow> MarketData list \<Rightarrow> error + OptimizationResult" where
  "evaluateStrategy strategy historicalData =
     (case trade_returns strategy historicalData of
        Inl e \<Rightarrow> Inl e
      | Inr rs \<Rightarrow> Inr \<lparr>parameters = strategy, metrics = calculateMetrics rs\<rparr>)"

section \<open>The optimizer\<close>

datatype Objective = SharpeRatio | SortinoRatio | CalmarRatio | MaxDrawdown

text \<open>Each constraint is a pair \<^verbatim>\<open>[min, max]\<close>.\<close>

record Constraints =
  c_maxPositionSize :: "number \<times> number"
  c_stopLossPercentage :: "number \<times> number"
  c_takeProfitPercentage :: "number \<times> number"
  c_maxDrawdown :: "number \<times> number"

text \<open>
  The two counts are typed \<^verbatim>\<open>number\<close> in the source and only ever compared with a loop
  counter or an array length; the model takes them to be integers (of either sign).
\<close>

record OptimizationConfig =
  populationSize :: int
  generations :: int
  mutationRate :: number
  crossoverRate :: number
  objective :: Objective
  constraints :: Constraints

text \<open>\<^verbatim>\<open>metrics[this.config.objective]\<close>\<close>

fun metric :: "Objective \<Rightarrow> Metrics \<Rightarrow> number" where
  "metric SharpeRatio m = sharpeRatio m"
| "metric SortinoRatio m = sortinoRatio m"
| "metric CalmarRatio m = calmarRatio m"
| "metric MaxDrawdown m = m_maxDrawdown m"

definition score :: "Objective \<Rightarrow> OptimizationResult \<Rightarrow> number" where
  "score obj r = metric obj (metrics r)"

subsection \<open>Randomness\<close>

text \<open>
  The source draws from the ambient \<^verbatim>\<open>Math.random()\<close>, which takes no seed. A run is
  modelled relative to the sequence \<open>rnd\<close> of values that the successive calls return
  (\<open>rnd k\<close> is the value of call number \<open>k\<close>, a finite number in \<open>[0, 1)\<close>); every operation
  that draws takes the number \<open>k\<close> of calls made so far and returns the new count.
\<close>

type_synonym random = "nat \<Rightarrow> real"

definition unit_draws :: "random \<Rightarrow> bool" where
  "unit_draws rnd \<longleftrightarrow> (\<forall>k. 0 \<le> rnd k \<and> rnd k < 1)"

definition randomInRange :: "random \<Rightarrow> nat \<Rightarrow> number \<times> number \<Rightarrow> number \<times> nat" where
  "randomInRange rnd k bound =
     (case bound of (lo, hi) \<Rightarrow> (jadd lo (jmul (Fin (rnd k)) (jsub hi lo)), Suc k))"

subsection \<open>Initial population\<close>

definition initial_member ::
  "OptimizationConfig \<Rightarrow> random \<Rightarrow> nat \<Rightarrow> nat \<Rightarrow> StrategyConfig \<times> nat" where
  "initial_member cfg rnd i k =
     (let (a, k1) = randomInRange rnd k (c_maxPositionSize (constraints cfg));
          (b, k2) = randomInRange rnd k1 (c_stopLossPercentage (constraints cfg));
          (c, k3) = randomInRange rnd k2 (c_takeProfitPercentage (constraints cfg));
          (d, k4) = randomInRange rnd k3 (c_maxDrawdown (constraints cfg))
      in (\<lparr>name = Strategy_index i,
           description = ''Optimized strategy'',
           riskLevel = Medium,
           maxPositionSize = a,
           stopLossPercentage = b,
           takeProfitPercentage = c,
           maxDrawdown = d,
           rebalanceFrequency = Daily,
           indicators = [''sma'', ''ema'', ''rsi'', ''macd'']\<rparr>, k4))"

text \<open>\<^verbatim>\<open>for (let i = ...; i < this.config.populationSize; i++) population.push(...)\<close>\<close>

function initial_loop ::
  "OptimizationConfig \<Rightarrow> random \<Rightarrow> nat \<Rightarrow> StrategyConfig list \<Rightarrow> nat \<Rightarrow> StrategyConfig list \<times> nat"
  where
  "initial_loop cfg rnd i population k =
     (if int i < populationSize cfg then
        (case initial_member cfg rnd i k of
           (member, k') \<Rightarrow> initial_loop cfg rnd (Suc i) (population @ [member]) k')
      else (population, k))"
  by pat_completeness auto
termination
  by (relation "measure (\<lambda>(cfg, rnd, i, population, k). nat (populationSize cfg) - i)") auto

declare initial_loop.simps [simp del]

definition generateInitialPopulation ::
  "OptimizationConfig \<Rightarrow> random \<Rightarrow> nat \<Rightarrow> StrategyConfig list \<times> nat" where
  "generateInitialPopulation cfg rnd k = initial_loop cfg rnd 0 [] k"

subsection \<open>Crossover and mutation\<close>

text \<open>\<^verbatim>\<open>[...new Set(xs)]\<close>: the distinct elements in order of first occurrence.\<close>

fun dedup :: "'a list \<Rightarrow> 'a list" where
  "dedup [] = []"
| "dedup (x # xs) = x # dedup (filter (\<lambda>y. y \<noteq> x) xs)"

text \<open>\<^verbatim>\<open>Math.random() < 0.5 ? a : b\<close>, with the draw number \<open>k\<close>.\<close>

definition coin :: "random \<Rightarrow> nat \<Rightarrow> 'a \<Rightarrow> 'a \<Rightarrow> 'a" where
  "coin rnd k a b = (if jlt (Fin (rnd k)) (Fin (1 / 2)) then a else b)"

text \<open>The fields of the object literal are evaluated in order: seven draws.\<close>

definition crossover ::
  "random \<Rightarrow> nat \<Rightarrow> StrategyConfig \<Rightarrow> StrategyConfig \<Rightarrow> StrategyConfig \<times> nat" where
  "crossover rnd k parent1 parent2 =
     (\<lparr>name = Strategy_random (rnd k),
       description = ''Optimized strategy'',
       riskLevel = coin rnd (k + 1) (riskLevel parent1) (riskLevel parent2),
       maxPositionSize = coin rnd (k + 2) (maxPositionSize parent1) (maxPositionSize parent2),
       stopLossPercentage =
         coin rnd (k + 3) (stopLossPercentage parent1) (stopLossPercentage parent2),
       takeProfitPercentage =
         coin rnd (k + 4) (takeProfitPercentage parent1) (takeProfitPercentage parent2),
       maxDrawdown = coin rnd (k + 5) (maxDrawdown parent1) (maxDrawdown parent2),
       rebalanceFrequency =
         coin rnd (k + 6) (rebalanceFrequency parent1) (rebalanceFrequency parent2),
       indicators = dedup (indicators parent1 @ indicators parent2)\<rparr>, k + 7)"

text \<open>One \<^verbatim>\<open>if (Math.random() < this.config.mutationRate) field = randomInRange(...)\<close>:
  the new value of the field, whose current value is \<open>v\<close>.\<close>

definition mutate_field ::
  "OptimizationConfig \<Rightarrow> random \<Rightarrow> nat \<Rightarrow> number \<times> number \<Rightarrow> number \<Rightarrow> number \<times> nat" where
  "mutate_field cfg rnd k bound v =
     (if jlt (Fin (rnd k)) (mutationRate cfg) then randomInRange rnd (Suc k) bound
      else (v, Suc k))"

definition mutate ::
  "OptimizationConfig \<Rightarrow> random \<Rightarrow> nat \<Rightarrow> StrategyConfig \<Rightarrow> StrategyConfig \<times> nat" where
  "mutate cfg rnd k strategy =
     (let (a, k1) = mutate_field cfg rnd k (c_maxPositionSize (constraints cfg))
                      (maxPositionSize strategy);
          (b, k2) = mutate_field cfg rnd k1 (c_stopLossPercentage (constraints cfg))
                      (stopLossPercentage strategy);
          (c, k3) = mutate_field cfg rnd k2 (c_takeProfitPercentage (constraints cfg))
                      (takeProfitPercentage strategy);
          (d, k4) = mutate_field cfg rnd k3 (c_maxDrawdown (constraints cfg))
                      (maxDrawdown strategy)
      in (strategy\<lparr>maxPositionSize := a, stopLossPercentage := b,
                    takeProfitPercentage := c, maxDrawdown := d\<rparr>, k4))"

text \<open>A value lies within a bound \<^verbatim>\<open>[min, max]\<close>; a strategy satisfies the configured
  bounds.\<close>

definition in_bound :: "number \<times> number \<Rightarrow> number \<Rightarrow> bool" where
  "in_bound bound v = (case bound of (lo, hi) \<Rightarrow> jle lo v \<and> jle v hi)"

definition within_bounds :: "OptimizationConfig \<Rightarrow> StrategyConfig \<Rightarrow> bool" where
  "within_bounds cfg s \<longleftrightarrow>
     in_bound (c_maxPositionSize (constraints cfg)) (maxPositionSize s) \<and>
     in_bound (c_stopLossPercentage (constraints cfg)) (stopLossPercentage s) \<and>
     in_bound (c_takeProfitPercentage (constraints cfg)) (takeProfitPercentage s) \<and>
     in_bound (c_maxDrawdown (constraints cfg)) (maxDrawdown s)"

text \<open>A well-formed bound: two finite numbers with \<open>min \<le> max\<close>.\<close>

fun valid_bound :: "number \<times> number \<Rightarrow> bool" where
  "valid_bound (Fin lo, Fin hi) = (lo \<le> hi)"
| "valid_bound (a, b) = False"

definition valid_constraints :: "Constraints \<Rightarrow> bool" where
  "valid_constraints c \<longleftrightarrow>
     valid_bound (c_maxPositionSize c) \<and> valid_bound (c_stopLossPercentage c) \<and>
     valid_bound (c_takeProfitPercentage c) \<and> valid_bound (c_maxDrawdown c)"

text \<open>A bound whose end points are in the range of the doubles and whose width
  \<open>max - min\<close> does not overflow.\<close>

fun finite_span :: "number \<times> number \<Rightarrow> bool" where
  "finite_span (Fin lo, Fin hi) \<longleftrightarrow>
     \<not> overflows lo \<and> \<not> overflows hi \<and> \<not> overflows (hi - lo)"
| "finite_span (a, b) = False"

definition finite_spans :: "Constraints \<Rightarrow> bool" where
  "finite_spans c \<longleftrightarrow>
     finite_span (c_maxPositionSize c) \<and> finite_span (c_stopLossPercentage c) \<and>
     finite_span (c_takeProfitPercentage c) \<and> finite_span (c_maxDrawdown c)"

subsection \<open>Best of a generation, selection\<close>

text \<open>\<^verbatim>\<open>results.reduce((best, current) => ...)\<close> with no initial value: a \<^verbatim>\<open>TypeError\<close>
  on the empty array, else a left fold from the first element.\<close>

definition better :: "Objective \<Rightarrow> OptimizationResult \<Rightarrow> OptimizationResult \<Rightarrow> OptimizationResult"
  where
  "better obj best current = (if jgt (score obj current) (score obj best) then current else best)"

fun reduce_best :: "Objective \<Rightarrow> OptimizationResult list \<Rightarrow> error + OptimizationResult" where
  "reduce_best obj [] = Inl TypeError"
| "reduce_best obj (r # rs) = Inr (foldl (better obj) r rs)"

text \<open>\<^verbatim>\<open>if (!bestResult || currentBest... > bestResult...) bestResult = currentBest\<close>\<close>

fun update_best ::
  "Objective \<Rightarrow> OptimizationResult option \<Rightarrow> OptimizationResult \<Rightarrow> OptimizationResult" where
  "update_best obj None currentBest = currentBest"
| "update_best obj (Some bestResult) currentBest =
     (if jgt (score obj currentBest) (score obj bestResult) then currentBest else bestResult)"

text \<open>The comparator \<^verbatim>\<open>(a, b) => b.metrics[objective] - a.metrics[objective]\<close>.\<close>

definition compare_desc :: "Objective \<Rightarrow> OptimizationResult \<Rightarrow> OptimizationResult \<Rightarrow> number" where
  "compare_desc obj a b = jsub (score obj b) (score obj a)"

text \<open>
  \<^verbatim>\<open>Array.prototype.sort\<close> with a comparator is a stable sort: \<open>a\<close> stays before a later
  \<open>b\<close> unless the comparator returns a value greater than zero (a \<open>NaN\<close> counts as zero).
  The model is the stable insertion sort; every stable sort returns the same array
  when the comparator is consistent, which it is when no score is \<open>NaN\<close>.
\<close>

fun insert_sorted :: "('a \<Rightarrow> 'a \<Rightarrow> number) \<Rightarrow> 'a \<Rightarrow> 'a list \<Rightarrow> 'a list" where
  "insert_sorted cmp x [] = [x]"
| "insert_sorted cmp x (y # ys) =
     (if jgt (cmp x y) (Fin 0) then y # insert_sorted cmp x ys else x # y # ys)"

definition array_sort :: "('a \<Rightarrow> 'a \<Rightarrow> number) \<Rightarrow> 'a list \<Rightarrow> 'a list" where
  "array_sort cmp xs = foldr (insert_sorted cmp) xs []"

text \<open>\<^verbatim>\<open>results.sort(...).slice(0, Math.floor(population.length / 2))\<close>, where \<open>n\<close> is
  \<^verbatim>\<open>population.length\<close>.\<close>

definition selection :: "Objective \<Rightarrow> OptimizationResult list \<Rightarrow> nat \<Rightarrow> OptimizationResult list"
  where
  "selection obj results n = take (n div 2) (array_sort (compare_desc obj) results)"

subsection \<open>Breeding the next population\<close>

text \<open>\<^verbatim>\<open>selected[Math.floor(Math.random() * selected.length)]\<close>, with the draw \<open>r\<close>.\<close>

definition pick :: "'a list \<Rightarrow> real \<Rightarrow> 'a option" where
  "pick selected r = at_index selected \<lfloor>r * real (length selected)\<rfloor>"

text \<open>\<^verbatim>\<open>while (newPopulation.length < this.config.populationSize) { ... }\<close>. Reading
  \<^verbatim>\<open>.parameters\<close> of an undefined array element throws.\<close>

function breed ::
  "OptimizationConfig \<Rightarrow> random \<Rightarrow> OptimizationResult list \<Rightarrow> StrategyConfig list \<Rightarrow> nat \<Rightarrow>
   error + StrategyConfig list \<times> nat" where
  "breed cfg rnd selected newPopulation k =
     (if int (length newPopulation) < populationSize cfg then
        (case pick selected (rnd k) of
           None \<Rightarrow> Inl TypeError
         | Some r1 \<Rightarrow>
            (case pick selected (rnd (k + 1)) of
               None \<Rightarrow> Inl TypeError
             | Some r2 \<Rightarrow>
                (case crossover rnd (k + 2) (parameters r1) (parameters r2) of
                   (child, k') \<Rightarrow>
                     (case mutate cfg rnd k' child of
                        (child', k'') \<Rightarrow>
                          breed cfg rnd selected (newPopulation @ [child']) k''))))
      else Inr (newPopulation, k))"
  by pat_completeness auto
termination
  by (relation "measure (\<lambda>(cfg, rnd, selected, newPopulation, k).
        nat (populationSize cfg) - length newPopulation)") auto

declare breed.simps [simp del]

subsection \<open>The generational loop\<close>

text \<open>\<^verbatim>\<open>await Promise.all(...)\<close>: all the results, or the first failure.\<close>

fun promise_all :: "(error + 'a) list \<Rightarrow> error + 'a list" where
  "promise_all [] = Inr []"
| "promise_all (Inl e # rs) = Inl e"
| "promise_all (Inr x # rs) = (case promise_all rs of Inl e \<Rightarrow> Inl e | Inr xs \<Rightarrow> Inr (x # xs))"

text \<open>
  The variables of \<^verbatim>\<open>optimize\<close> that live across generations, the number of calls of
  \<^verbatim>\<open>Math.random()\<close> made so far, and a record \<open>evaluated\<close> of every candidate that has been
  passed to \<^verbatim>\<open>evaluateStrategy\<close> (the record is not in the source; it tells which
  simulations were run). An exception carries that record out of the loop.
\<close>

record opt_state =
  population :: "StrategyConfig list"
  bestResult :: "OptimizationResult option"
  randomCalls :: nat
  evaluated :: "StrategyConfig list"

definition run_generation ::
  "OptimizationConfig \<Rightarrow> MarketData list \<Rightarrow> random \<Rightarrow> opt_state \<Rightarrow>
   error \<times> StrategyConfig list + opt_state" where
  "run_generation cfg historicalData rnd st =
     (let seen = evaluated st @ population st in
      case promise_all
             (map (\<lambda>strategy. evaluateStrategy strategy historicalData) (population st)) of
        Inl e \<Rightarrow> Inl (e, seen)
      | Inr results \<Rightarrow>
         (case reduce_best (objective cfg) results of
            Inl e \<Rightarrow> Inl (e, seen)
          | Inr currentBest \<Rightarrow>
             (let bestResult' = update_best (objective cfg) (bestResult st) currentBest;
                  selected = selection (objective cfg) results (length (population st))
              in case breed cfg rnd selected [] (randomCalls st) of
                   Inl e \<Rightarrow> Inl (e, seen)
                 | Inr (newPopulation, k) \<Rightarrow>
                     Inr \<lparr>population = newPopulation, bestResult = Some bestResult',
                          randomCalls = k, evaluated = seen\<rparr>)))"

text \<open>\<^verbatim>\<open>for (let generation = ...; generation < this.config.generations; generation++)\<close>\<close>

function generations_loop ::
  "OptimizationConfig \<Rightarrow> MarketData list \<Rightarrow> random \<Rightarrow> nat \<Rightarrow> opt_state \<Rightarrow>
   error \<times> StrategyConfig list + opt_state" where
  "generations_loop cfg historicalData rnd generation st =
     (if int generation < generations cfg then
        (case run_generation cfg historicalData rnd st of
           Inl e \<Rightarrow> Inl e
         | Inr st' \<Rightarrow> generations_loop cfg historicalData rnd (Suc generation) st')
      else Inr st)"
  by pat_completeness auto
termination
  by (relation "measure (\<lambda>(cfg, historicalData, rnd, generation, st).
        nat (generations cfg) - generation)") auto

declare generations_loop.simps [simp del]

text \<open>The state of a run when the loop is left, started after \<open>k\<close> earlier draws.\<close>

definition optimize_run ::
  "OptimizationConfig \<Rightarrow> MarketData list \<Rightarrow> random \<Rightarrow> nat \<Rightarrow>
   error \<times> StrategyConfig list + opt_state" where
  "optimize_run cfg historicalData rnd k =
     (case generateInitialPopulation cfg rnd k of
        (initial, k') \<Rightarrow>
          generations_loop cfg historicalData rnd 0
            \<lparr>population = initial, bestResult = None, randomCalls = k', evaluated = []\<rparr>)"

text \<open>\<^verbatim>\<open>optimize\<close>: the best result or the exception thrown, and the record of evaluated
  candidates.\<close>

definition optimize ::
  "OptimizationConfig \<Rightarrow> MarketData list \<Rightarrow> random \<Rightarrow>
   (error + OptimizationResult) \<times> StrategyConfig list" where
  "optimize cfg historicalData rnd =
     (case optimize_run cfg historicalData rnd 0 of
        Inl (e, seen) \<Rightarrow> (Inl e, seen)
      | Inr st \<Rightarrow>
         (case bestResult st of
            None \<Rightarrow> (Inl OptimizationFailed, evaluated st)
          | Some best \<Rightarrow> (Inr best, evaluated st)))"

subsection \<open>Construction\<close>

text \<open>\<^verbatim>\<open>constructor(config) { this.config = config; }\<close>: the configuration is stored as
  it is; nothing is checked and nothing is thrown.\<close>

definition new_optimizer :: "OptimizationConfig \<Rightarrow> error + OptimizationConfig" where
  "new_optimizer config = Inr config"

section \<open>Example data\<close>

text \<open>A bar with the given close, high and low, and a strategy with a stop-loss of 5
  percent and a take-profit of 10 percent.\<close>

definition bar :: "real \<Rightarrow> real \<Rightarrow> real \<Rightarrow> MarketData" where
  "bar c h l = \<lparr>symbol = ''X'', timestamp = ''t'', open = Fin c, high = Fin h, low = Fin l,
     close = Fin c, volume = Fin 0, vwap = Fin c, trades = Fin 0\<rparr>"

definition strat :: StrategyConfig where
  "strat = \<lparr>name = Strategy_index 0, description = ''Optimized strategy'', riskLevel = Medium,
     maxPositionSize = Fin 1, stopLossPercentage = Fin 5, takeProfitPercentage = Fin 10,
     maxDrawdown = Fin (1 / 5), rebalanceFrequency = Daily, indicators = [''sma'', ''ema'']\<rparr>"

definition strat2 :: StrategyConfig where
  "strat2 = \<lparr>name = Strategy_index 1, description = ''Optimized strategy'', riskLevel = High,
     maxPositionSize = Fin (1 / 2), stopLossPercentage = Fin 2, takeProfitPercentage = Fin 4,
     maxDrawdown = Fin (1 / 10), rebalanceFrequency = Weekly, indicators = [''ema'', ''rsi'']\<rparr>"

text \<open>Constraints with well-formed bounds, a configuration over them with the given
  population size, generation count and mutation rate, and a sequence of draws that
  alternates between 1/4 and 3/4.\<close>

definition cons0 :: Constraints where
  "cons0 = \<lparr>c_maxPositionSize = (Fin (1 / 10), Fin 1), c_stopLossPercentage = (Fin 1, Fin 10),
     c_takeProfitPercentage = (Fin 2, Fin 20), c_maxDrawdown = (Fin (1 / 20), Fin (1 / 2))\<rparr>"

definition cfg0 :: "int \<Rightarrow> int \<Rightarrow> number \<Rightarrow> OptimizationConfig" where
  "cfg0 p g m = \<lparr>populationSize = p, generations = g, mutationRate = m,
     crossoverRate = Fin (7 / 10), objective = CalmarRatio, constraints = cons0\<rparr>"

definition halves :: random where
  "halves k = (if even k then 1 / 4 else 3 / 4)"

text \<open>A history of 23 bars: a close of 79, then 21 closes of 100 (so that the 21-bar
  average exceeds the 22-bar average at index 21), then a bar that spans both exit
  thresholds of a long position entered at 100.\<close>

definition hist :: "MarketData list" where
  "hist = bar 79 79 79 # replicate 21 (bar 100 100 100) @ [bar 100 111 94]"

text \<open>Two more strategies: one whose thresholds, 50 percent each way, the example
  history never touches, and one with a stop-loss of 5.5 percent. Then the results of
  three candidates: one trade closed at -5 percent, no trade closed, one trade closed
  at -5.5 percent.\<close>

definition strat_wide :: StrategyConfig where
  "strat_wide = strat\<lparr>name := Strategy_index 1, stopLossPercentage := Fin 50,
     takeProfitPercentage := Fin 50\<rparr>"

definition strat_tight :: StrategyConfig where
  "strat_tight = strat\<lparr>name := Strategy_index 2, stopLossPercentage := Fin (11 / 2)\<rparr>"

definition result_a :: OptimizationResult where
  "result_a = \<lparr>parameters = strat, metrics = calculateMetrics [Fin (- (1 / 20))]\<rparr>"

definition result_b :: OptimizationResult where
  "result_b = \<lparr>parameters = strat_wide, metrics = calculateMetrics []\<rparr>"

definition result_c :: OptimizationResult where
  "result_c = \<lparr>parameters = strat_tight, metrics = calculateMetrics [Fin (- (11 / 200))]\<rparr>"

text \<open>Constraints whose stop-loss bound has \<open>min > max\<close>, a constant sequence of draws, a
  sequence that follows \<open>halves\<close> for its first hundred draws only, and a state of the
  generational loop whose incumbent is the result of \<open>strat2\<close> on a history without trades.\<close>

definition cons_bad :: Constraints where
  "cons_bad = cons0\<lparr>c_stopLossPercentage := (Fin 10, Fin 1)\<rparr>"

definition cfg_bad :: OptimizationConfig where
  "cfg_bad = (cfg0 2 1 (Fin 0))\<lparr>constraints := cons_bad\<rparr>"

text \<open>A configuration with mutation rate 1 whose position-size bound, from \<open>-2^1023\<close> to
  \<open>2^1023\<close> (two doubles, about \<open>9 * 10^307\<close>), is wider than the largest double, and one
  with mutation rate 1 and the stop-loss bound with \<open>min > max\<close>.\<close>

definition huge :: real where
  "huge = 2 ^ 1023"

definition cfg_wide :: OptimizationConfig where
  "cfg_wide = (cfg0 2 1 (Fin 1))
     \<lparr>constraints := cons0\<lparr>c_maxPositionSize := (Fin (- huge), Fin huge)\<rparr>\<rparr>"

definition cfg_inverted :: OptimizationConfig where
  "cfg_inverted = (cfg0 2 1 (Fin 1))\<lparr>constraints := cons_bad\<rparr>"

definition mids :: random where
  "mids k = 1 / 2"

definition halves_then_zero :: random where
  "halves_then_zero k = (if k < 100 then halves k else 0)"

definition incumbent :: OptimizationResult where
  "incumbent = \<lparr>parameters = strat2, metrics = calculateMetrics []\<rparr>"

definition st0 :: opt_state where
  "st0 = \<lparr>population = [strat, strat2], bestResult = Some incumbent, randomCalls = 0,
     evaluated = []\<rparr>"

section \<open>Properties of the numbers\<close>

lemma overflow_threshold: "(10::real) ^ 9 < 2 ^ 1024 - 2 ^ 970"
  by simp

text \<open>Results of moderate size do not overflow.\<close>

lemma fin_small [simp]: "\<bar>x\<bar> \<le> 10 ^ 9 \<Longrightarrow> fin x = Fin x"
  using overflow_threshold by (simp add: fin_def overflows_def)

lemma fin_not_NaN [simp]: "fin x \<noteq> NaN"
  by (simp add: fin_def signedInf_def)

lemma jlt_irrefl [simp]: "\<not> jlt x x"
  by (cases x) simp_all

lemma jlt_trans: "jlt a b \<Longrightarrow> jlt b c \<Longrightarrow> jlt a c"
  by (cases a; cases b; cases c) simp_all

lemma jlt_zero_fin: "jlt (Fin 0) (fin x) \<longleftrightarrow> 0 < x"
  using overflow_threshold by (auto simp: fin_def overflows_def signedInf_def)

lemma num_le_refl: "a \<noteq> NaN \<Longrightarrow> num_le a a"
  by (simp add: num_le_def)

lemma num_le_trans: "num_le a b \<Longrightarrow> num_le b c \<Longrightarrow> num_le a c"
  by (cases a; cases b; cases c) (auto simp: num_le_def)

lemma num_le_Fin: "num_le (Fin x) (Fin y) \<longleftrightarrow> x \<le> y"
  by (auto simp: num_le_def)

lemma num_le_fin: "x \<le> y \<Longrightarrow> num_le (fin x) (fin y)"
  using overflow_threshold by (auto simp: num_le_def fin_def overflows_def signedInf_def)

lemma num_le_jneg: "num_le a b \<Longrightarrow> num_le (jneg b) (jneg a)"
  by (cases a; cases b) (auto simp: num_le_def)

lemma num_le_jadd: "num_le a b \<Longrightarrow> num_le (jadd (Fin c) a) (jadd (Fin c) b)"
proof (cases a; cases b)
  fix x y assume "num_le a b" "a = Fin x" "b = Fin y"
  then show ?thesis by (simp add: num_le_Fin num_le_fin)
qed (auto simp: num_le_def fin_def signedInf_def)

lemma num_le_jmul: "0 < c \<Longrightarrow> num_le a b \<Longrightarrow> num_le (jmul (Fin c) a) (jmul (Fin c) b)"
proof (cases a; cases b)
  fix x y assume "0 < c" "num_le a b" "a = Fin x" "b = Fin y"
  then show ?thesis by (simp add: num_le_Fin num_le_fin)
next
  fix x assume "0 < c" "a = Fin x" "b = PInf"
  then show ?thesis
    using overflow_threshold by (auto simp: num_le_def fin_def overflows_def signedInf_def)
next
  fix y assume "0 < c" "a = NInf" "b = Fin y"
  then show ?thesis
    using overflow_threshold by (auto simp: num_le_def fin_def overflows_def signedInf_def)
qed (auto simp: num_le_def signedInf_def)

lemma Math_min_num_le: "num_le a b \<Longrightarrow> Math_min a b = a"
  by (simp add: num_le_def Math_min_def)

lemma Math_max_num_le: "num_le b a \<Longrightarrow> Math_max a b = a"
  by (simp add: num_le_def Math_max_def)

section \<open>Properties of the metrics\<close>

text \<open>
  C1. The claim is that \<open>calculateMetrics\<close> returns six finite values for every sequence
  of returns, the empty one included. On the empty sequence the code divides by
  \<^verbatim>\<open>returns.length = 0\<close>: the average is \<^verbatim>\<open>0 / 0\<close>, so the Sharpe ratio, the Sortino
  ratio and the win rate are \<open>NaN\<close> (the guards \<^verbatim>\<open>stdDev === 0\<close> and
  \<^verbatim>\<open>downsideStdDev === 0\<close> do not catch a \<open>NaN\<close> deviation). The theorem evaluates the
  code there.
\<close>

theorem calculateMetrics_empty:
  "calculateMetrics [] =
     \<lparr> sharpeRatio = NaN, sortinoRatio = NaN, calmarRatio = Fin 0,
       m_maxDrawdown = Fin 0, totalReturn = Fin 0, winRate = NaN \<rparr>
   \<and> \<not> metrics_finite (calculateMetrics [])"
  by (simp add: calculateMetrics_def jlength_def jeq_def jsub_def metrics_finite_def Let_def)

section \<open>Properties of the simulation\<close>

lemma at_index_nat: "i < length xs \<Longrightarrow> at_index xs (int i) = Some (xs ! i)"
  by (simp add: at_index_def)

lemma sim_step_flat_returns:
  "position st = 0 \<Longrightarrow> returns (sim_step s d i c st) = returns st"
  by (simp add: sim_step_def Let_def)

text \<open>Up to index 20 both windows are the slice from 0 to \<open>i + 1\<close>: the two averages are
  the same number, neither comparison holds, and a flat position stays flat.\<close>

lemma sim_step_early:
  "position st = 0 \<Longrightarrow> i \<le> 20 \<Longrightarrow> sim_step s d i c st = st"
  by (simp add: sim_step_def Let_def jgt_def)

lemma simulate_loop_step:
  "i < length d \<Longrightarrow>
   simulate_loop s d i st = simulate_loop s d (Suc i) (sim_step s d i (d ! i) st)"
  by (subst simulate_loop.simps) (simp add: at_index_nat)

lemma simulate_loop_stop:
  "\<not> i < length d \<Longrightarrow> simulate_loop s d i st = Inr st"
  by (subst simulate_loop.simps) simp

lemma sim_step_exit:
  "position st \<noteq> 0 \<Longrightarrow>
   exit_touched (position st) c (stopLoss_of s (position st) (entryPrice st))
     (takeProfit_of s (position st) (entryPrice st)) \<Longrightarrow>
   sim_step s d i c st =
     st\<lparr>returns := returns st @
          [trade_return (position st)
             (exitPrice_of (position st) (stopLoss_of s (position st) (entryPrice st))
                (takeProfit_of s (position st) (entryPrice st)))
             (entryPrice st)],
        position := 0\<rparr>"
  by (simp add: sim_step_def Let_def)

text \<open>The loop never throws: the index it reads is below the length.\<close>

lemma simulate_loop_total: "\<exists>st'. simulate_loop s d i st = Inr st'"
proof (induction s d i st rule: simulate_loop.induct)
  case (1 strategy historicalData i st)
  show ?case
  proof (cases "i < length historicalData")
    case False
    then show ?thesis by (simp add: simulate_loop_stop)
  next
    case True
    from "1.IH"[OF True at_index_nat[OF True]] show ?thesis
      using True by (simp add: simulate_loop_step)
  qed
qed

lemma simulate_loop_short:
  "length d \<le> 22 \<Longrightarrow> returns st = [] \<Longrightarrow> (i \<le> 21 \<longrightarrow> position st = 0) \<Longrightarrow>
   \<exists>st'. simulate_loop s d i st = Inr st' \<and> returns st' = []"
proof (induction s d i st rule: simulate_loop.induct)
  case (1 strategy historicalData i st)
  show ?case
  proof (cases "i < length historicalData")
    case False
    then show ?thesis using "1.prems" by (simp add: simulate_loop_stop)
  next
    case True
    let ?c = "historicalData ! i"
    let ?st = "sim_step strategy historicalData i ?c st"
    from True "1.prems" have i: "i \<le> 21" by simp
    with "1.prems" have flat: "position st = 0" by simp
    have r: "returns ?st = []"
      using flat "1.prems" by (simp add: sim_step_flat_returns)
    have p: "Suc i \<le> 21 \<longrightarrow> position ?st = 0"
      using flat by (simp add: sim_step_early)
    have "\<exists>st'. simulate_loop strategy historicalData (Suc i) ?st = Inr st' \<and> returns st' = []"
      using "1.IH"[OF True at_index_nat[OF True] "1.prems"(1) r p] .
    then show ?thesis
      using True by (simp add: simulate_loop_step)
  qed
qed

lemma simulate_loop_skip:
  "position st = 0 \<Longrightarrow> i + n = 21 \<Longrightarrow> 21 \<le> length d \<Longrightarrow>
   simulate_loop s d i st = simulate_loop s d 21 st"
proof (induction n arbitrary: i)
  case 0
  then show ?case by simp
next
  case (Suc n)
  then have "i < length d" and "i \<le> 20" by simp_all
  then have "simulate_loop s d i st = simulate_loop s d (Suc i) st"
    using Suc.prems(1) by (simp add: simulate_loop_step sim_step_early)
  also have "\<dots> = simulate_loop s d 21 st"
    using Suc.prems by (intro Suc.IH) simp_all
  finally show ?case .
qed

subsection \<open>The example history\<close>

lemma close_bar: "close (bar c h l) = Fin c"
  by (simp add: bar_def)

lemma foldl_close_replicate:
  "0 \<le> a \<Longrightarrow> 0 \<le> c \<Longrightarrow> a + real n * c \<le> 10 ^ 9 \<Longrightarrow>
   foldl (\<lambda>sum d. jadd sum (close d)) (Fin a) (replicate n (bar c h l)) = Fin (a + real n * c)"
proof (induction n arbitrary: a)
  case 0
  then show ?case by simp
next
  case (Suc n)
  have nc: "0 \<le> real n * c" using Suc.prems(2) by simp
  have total: "a + (c + real n * c) \<le> 10 ^ 9"
    using Suc.prems(3) by (simp add: algebra_simps)
  have small: "\<bar>a + c\<bar> \<le> 10 ^ 9"
    using nc total Suc.prems(1,2) by linarith
  have next_small: "a + c + real n * c \<le> 10 ^ 9"
    using total by linarith
  have "0 \<le> a + c" using Suc.prems by simp
  from Suc.IH[OF this Suc.prems(2) next_small] show ?case
    by (simp add: close_bar fin_small[OF small] algebra_simps)
qed

lemma hist_length: "length hist = 23"
  by (simp add: hist_def)

lemma hist_21: "hist ! 21 = bar 100 100 100"
  by (simp add: hist_def nth_append)

lemma hist_22: "hist ! 22 = bar 100 111 94"
  by (simp add: hist_def nth_append)

lemma hist_sma20: "calculateSMA (slice hist (Suc 0) 22) = Fin 100"
  by (simp add: hist_def slice_def calculateSMA_def foldl_close_replicate jlength_def)

lemma hist_sma50: "calculateSMA (slice hist 0 22) = Fin (2179 / 22)"
  by (simp add: hist_def slice_def calculateSMA_def foldl_close_replicate jlength_def close_bar)

lemma hist_entry:
  "sim_step s hist 21 (hist ! 21) \<lparr>returns = [], position = 0, entryPrice = Fin 0\<rparr>
     = \<lparr>returns = [], position = 1, entryPrice = Fin 100\<rparr>"
  by (simp add: sim_step_def hist_21 hist_sma20 hist_sma50 jgt_def close_bar)

subsection \<open>Stop-loss and take-profit touched by the same bar\<close>

text \<open>For a positive entry price and percentages that are not negative, the smaller of
  the two thresholds of a long position and the larger of the two of a short position is
  the stop-loss.\<close>

lemma exit_price_is_stop:
  assumes "entryPrice st = Fin e" and "0 < e"
    and "stopLossPercentage s = Fin a" and "0 \<le> a"
    and "takeProfitPercentage s = Fin b" and "0 \<le> b"
  shows "Math_min (stopLoss_of s 1 (entryPrice st)) (takeProfit_of s 1 (entryPrice st))
           = stopLoss_of s 1 (entryPrice st)"
    and "Math_max (stopLoss_of s (- 1) (entryPrice st)) (takeProfit_of s (- 1) (entryPrice st))
           = stopLoss_of s (- 1) (entryPrice st)"
proof -
  have up: "num_le (Fin 0) (jdiv (Fin x) (Fin 100))" if "0 \<le> x" for x :: real
    using num_le_fin[of 0 "x / 100"] that by simp
  have down: "num_le (jneg (jdiv (Fin x) (Fin 100))) (Fin 0)" if "0 \<le> x" for x :: real
    using num_le_jneg[OF up[OF that]] by simp
  have spread: "num_le (jmul (Fin e) (jsub (Fin 1) (jdiv (Fin x) (Fin 100))))
                       (jmul (Fin e) (jadd (Fin 1) (jdiv (Fin y) (Fin 100))))"
    if "0 \<le> x" and "0 \<le> y" for x y :: real
    unfolding jsub_def
    by (intro num_le_jmul[OF assms(2)] num_le_jadd num_le_trans[OF down[OF that(1)] up[OF that(2)]])
  show "Math_min (stopLoss_of s 1 (entryPrice st)) (takeProfit_of s 1 (entryPrice st))
           = stopLoss_of s 1 (entryPrice st)"
    using spread[OF assms(4,6)]
    by (simp add: stopLoss_of_def takeProfit_of_def assms(1,3,5) Math_min_num_le)
  show "Math_max (stopLoss_of s (- 1) (entryPrice st)) (takeProfit_of s (- 1) (entryPrice st))
           = stopLoss_of s (- 1) (entryPrice st)"
    using spread[OF assms(6,4)]
    by (simp add: stopLoss_of_def takeProfit_of_def assms(1,3,5) Math_max_num_le)
qed


text \<open>
  C2. When the bar touches both thresholds of an open position, the position is closed
  and the return appended is the one of the exit price \<^verbatim>\<open>Math.min(stopLoss, takeProfit)\<close>
  for a long position and \<^verbatim>\<open>Math.max(stopLoss, takeProfit)\<close> for a short one. For a long
  position entered at 100 with a stop-loss of 5 percent and a take-profit of 10 percent,
  a bar with low 94 and high 111 touches both thresholds, the exit price is 95 and the
  return appended is \<open>-5 / 100\<close>. For a positive entry price and percentages that are
  not negative this exit price is the stop-loss, in both directions.
\<close>

theorem exit_tie_break:
  fixes s :: StrategyConfig and st :: sim_state and c :: MarketData
  defines "stopLoss \<equiv> stopLoss_of s (position st) (entryPrice st)"
      and "takeProfit \<equiv> takeProfit_of s (position st) (entryPrice st)"
  shows
  "(position st = 1 \<and> jle (low c) stopLoss \<and> jge (high c) takeProfit \<longrightarrow>
      sim_step s d i c st =
        st\<lparr>returns := returns st @
             [trade_return 1 (Math_min stopLoss takeProfit) (entryPrice st)],
           position := 0\<rparr>) \<and>
   (position st = - 1 \<and> jge (high c) stopLoss \<and> jle (low c) takeProfit \<longrightarrow>
      sim_step s d i c st =
        st\<lparr>returns := returns st @
             [trade_return (- 1) (Math_max stopLoss takeProfit) (entryPrice st)],
           position := 0\<rparr>) \<and>
   (position st = 1 \<and> entryPrice st = Fin 100 \<and> stopLossPercentage s = Fin 5 \<and>
    takeProfitPercentage s = Fin 10 \<and> low c = Fin 94 \<and> high c = Fin 111 \<longrightarrow>
      jle (low c) stopLoss \<and> jge (high c) takeProfit \<and>
      Math_min stopLoss takeProfit = Fin 95 \<and>
      sim_step s d i c st = st\<lparr>returns := returns st @ [Fin (- 5 / 100)], position := 0\<rparr>) \<and>
   (entryPrice st = Fin e \<and> 0 < e \<and> stopLossPercentage s = Fin a \<and> 0 \<le> a \<and>
    takeProfitPercentage s = Fin b \<and> 0 \<le> b \<longrightarrow>
      (position st = 1 \<longrightarrow> Math_min stopLoss takeProfit = stopLoss) \<and>
      (position st = - 1 \<longrightarrow> Math_max stopLoss takeProfit = stopLoss))"
proof (intro conjI impI)
  assume "entryPrice st = Fin e \<and> 0 < e \<and> stopLossPercentage s = Fin a \<and> 0 \<le> a \<and>
    takeProfitPercentage s = Fin b \<and> 0 \<le> b"
  then have h: "entryPrice st = Fin e" "0 < e" "stopLossPercentage s = Fin a" "0 \<le> a"
    "takeProfitPercentage s = Fin b" "0 \<le> b"
    by simp_all
  show "Math_min stopLoss takeProfit = stopLoss" if "position st = 1"
    unfolding stopLoss_def takeProfit_def that by (rule exit_price_is_stop(1)[OF h])
  show "Math_max stopLoss takeProfit = stopLoss" if "position st = - 1"
    unfolding stopLoss_def takeProfit_def that by (rule exit_price_is_stop(2)[OF h])
next
  assume a: "position st = 1 \<and> jle (low c) stopLoss \<and> jge (high c) takeProfit"
  then have p: "position st = 1" and t: "exit_touched (position st) c stopLoss takeProfit"
    by (simp_all add: exit_touched_def)
  show "sim_step s d i c st =
        st\<lparr>returns := returns st @
             [trade_return 1 (Math_min stopLoss takeProfit) (entryPrice st)],
           position := 0\<rparr>"
    using sim_step_exit[of st c s d i] t p unfolding stopLoss_def takeProfit_def
    by (simp add: exitPrice_of_def)
next
  assume a: "position st = - 1 \<and> jge (high c) stopLoss \<and> jle (low c) takeProfit"
  then have p: "position st = - 1" and t: "exit_touched (position st) c stopLoss takeProfit"
    by (simp_all add: exit_touched_def)
  show "sim_step s d i c st =
        st\<lparr>returns := returns st @
             [trade_return (- 1) (Math_max stopLoss takeProfit) (entryPrice st)],
           position := 0\<rparr>"
    using sim_step_exit[of st c s d i] t p unfolding stopLoss_def takeProfit_def
    by (simp add: exitPrice_of_def)
next
  assume a: "position st = 1 \<and> entryPrice st = Fin 100 \<and> stopLossPercentage s = Fin 5 \<and>
    takeProfitPercentage s = Fin 10 \<and> low c = Fin 94 \<and> high c = Fin 111"
  then have sl: "stopLoss = Fin 95" and tp: "takeProfit = Fin 110"
    unfolding stopLoss_def takeProfit_def
    by (simp_all add: stopLoss_of_def takeProfit_of_def jsub_def)
  show "jle (low c) stopLoss" using a sl by (simp add: jle_def)
  show "jge (high c) takeProfit" using a tp by (simp add: jge_def jle_def)
  show m: "Math_min stopLoss takeProfit = Fin 95" using sl tp by (simp add: Math_min_def)
  have "exit_touched (position st) c (stopLoss_of s (position st) (entryPrice st))
     (takeProfit_of s (position st) (entryPrice st))"
    using a sl unfolding stopLoss_def by (simp add: exit_touched_def jle_def)
  then show "sim_step s d i c st = st\<lparr>returns := returns st @ [Fin (- 5 / 100)], position := 0\<rparr>"
    using a sl tp unfolding stopLoss_def takeProfit_def
    by (simp add: sim_step_exit exitPrice_of_def Math_min_def trade_return_def jsub_def)
qed

text \<open>
  The scenario in a whole run: on the 23-bar example history the simulation enters long
  at 100 on bar 21 and the last bar closes the trade at 95. A short position entered at
  100 (stop at 105, target at 90) and a bar from 89 to 106 exits at 105.
\<close>

theorem exit_tie_break_witness:
  "simulate strat hist = Inr \<lparr>returns = [Fin (- 5 / 100)], position = 0, entryPrice = Fin 100\<rparr>
   \<and> sim_step strat [] 1 (bar 100 106 89) \<lparr>returns = [], position = - 1, entryPrice = Fin 100\<rparr>
       = \<lparr>returns = [Fin (- 5 / 100)], position = 0, entryPrice = Fin 100\<rparr>
   \<and> Math_min (stopLoss_of strat 1 (Fin 100)) (takeProfit_of strat 1 (Fin 100))
       = stopLoss_of strat 1 (Fin 100)"
proof (intro conjI)
  let ?st = "\<lparr>returns = [], position = 1, entryPrice = Fin 100\<rparr>"
  have "entryPrice ?st = Fin 100 \<and> (0::real) < 100 \<and> stopLossPercentage strat = Fin 5 \<and>
    (0::real) \<le> 5 \<and> takeProfitPercentage strat = Fin 10 \<and> (0::real) \<le> 10"
    by (simp add: strat_def)
  with exit_tie_break[of ?st "hist ! 22" strat hist 22 100 5 10]
  show "Math_min (stopLoss_of strat 1 (Fin 100)) (takeProfit_of strat 1 (Fin 100))
       = stopLoss_of strat 1 (Fin 100)"
    by simp
next
  let ?st = "\<lparr>returns = [], position = 1, entryPrice = Fin 100\<rparr>"
  have pre: "position ?st = 1 \<and> entryPrice ?st = Fin 100 \<and> stopLossPercentage strat = Fin 5 \<and>
    takeProfitPercentage strat = Fin 10 \<and> low (hist ! 22) = Fin 94 \<and> high (hist ! 22) = Fin 111"
    by (simp add: strat_def hist_22 bar_def)
  have exit: "sim_step strat hist 22 (hist ! 22) ?st
      = \<lparr>returns = [Fin (- 5 / 100)], position = 0, entryPrice = Fin 100\<rparr>"
    using exit_tie_break[of ?st "hist ! 22" strat hist 22] pre by simp
  have "simulate strat hist
      = simulate_loop strat hist 21 \<lparr>returns = [], position = 0, entryPrice = Fin 0\<rparr>"
    unfolding simulate_def by (rule simulate_loop_skip[where n = 20]) (simp_all add: hist_length)
  also have "\<dots> = simulate_loop strat hist 22 ?st"
    using simulate_loop_step[of 21 hist strat] by (simp add: hist_length hist_entry)
  also have "\<dots> = simulate_loop strat hist 23
      \<lparr>returns = [Fin (- 5 / 100)], position = 0, entryPrice = Fin 100\<rparr>"
    using simulate_loop_step[of 22 hist strat ?st] by (simp add: hist_length exit)
  also have "\<dots> = Inr \<lparr>returns = [Fin (- 5 / 100)], position = 0, entryPrice = Fin 100\<rparr>"
    by (simp add: simulate_loop_stop hist_length)
  finally show "simulate strat hist
      = Inr \<lparr>returns = [Fin (- 5 / 100)], position = 0, entryPrice = Fin 100\<rparr>" .
next
  let ?st = "\<lparr>returns = [], position = - 1, entryPrice = Fin 100\<rparr>"
  let ?c = "bar 100 106 89"
  have sl: "stopLoss_of strat (- 1) (Fin 100) = Fin 105"
    and tp: "takeProfit_of strat (- 1) (Fin 100) = Fin 90"
    by (simp_all add: stopLoss_of_def takeProfit_of_def strat_def jsub_def)
  have pre: "position ?st = - 1 \<and> jge (high ?c) (stopLoss_of strat (position ?st) (entryPrice ?st))
      \<and> jle (low ?c) (takeProfit_of strat (position ?st) (entryPrice ?st))"
    by (simp add: sl tp bar_def jge_def jle_def)
  show "sim_step strat [] 1 ?c ?st
       = \<lparr>returns = [Fin (- 5 / 100)], position = 0, entryPrice = Fin 100\<rparr>"
    using exit_tie_break[of ?st ?c strat "[]" 1] pre
    by (simp add: sl tp Math_max_def trade_return_def jsub_def)
qed

subsection \<open>Histories shorter than the lookback\<close>

text \<open>
  C10. On a history of at most 22 bars (the empty one included) the simulation does not
  throw and its sequence of trade returns is empty: no position can be opened before
  index 21, so none can be closed before index 22. The metrics are then those of the
  empty sequence.
\<close>

theorem short_history_no_trades:
  "length historicalData \<le> 22 \<Longrightarrow>
     trade_returns strategy historicalData = Inr [] \<and>
     evaluateStrategy strategy historicalData
       = Inr \<lparr>parameters = strategy, metrics = calculateMetrics []\<rparr>"
proof -
  let ?init = "\<lparr>returns = [], position = 0, entryPrice = Fin 0\<rparr>"
  assume "length historicalData \<le> 22"
  then have "\<exists>st. simulate_loop strategy historicalData 1 ?init = Inr st \<and> returns st = []"
    by (rule simulate_loop_short) simp_all
  then obtain st where "simulate strategy historicalData = Inr st" and "returns st = []"
    unfolding simulate_def by blast
  then show ?thesis
    by (simp add: trade_returns_def evaluateStrategy_def)
qed

theorem short_history_no_trades_witness:
  "trade_returns strat [] = Inr [] \<and>
   trade_returns strat (take 22 hist) = Inr [] \<and>
   evaluateStrategy strat (take 22 hist)
     = Inr \<lparr>parameters = strat, metrics = calculateMetrics []\<rparr>"
  using short_history_no_trades[of "[]" strat] short_history_no_trades[of "take 22 hist" strat]
  by (simp add: hist_length)

section \<open>Properties of crossover and mutation\<close>

lemma set_dedup [simp]: "set (dedup xs) = set xs"
  by (induction xs rule: dedup.induct) auto

lemma distinct_dedup [simp]: "distinct (dedup xs)"
  by (induction xs rule: dedup.induct) auto

lemma coin_cases: "coin rnd k a b = a \<or> coin rnd k a b = b"
  by (simp add: coin_def)

lemma coin_pred: "P a \<Longrightarrow> P b \<Longrightarrow> P (coin rnd k a b)"
  by (simp add: coin_def)

text \<open>
  C6. Every numeric field of a child is the field of one parent or of the other, its
  indicators are the distinct elements of both parents' indicators, and a child of two
  parents that satisfy the configured bounds satisfies them.
\<close>

theorem crossover_inherits:
  fixes parent1 parent2 :: StrategyConfig and rnd :: random and k :: nat
  defines "child \<equiv> fst (crossover rnd k parent1 parent2)"
  shows
  "(maxPositionSize child = maxPositionSize parent1 \<or>
      maxPositionSize child = maxPositionSize parent2) \<and>
   (stopLossPercentage child = stopLossPercentage parent1 \<or>
      stopLossPercentage child = stopLossPercentage parent2) \<and>
   (takeProfitPercentage child = takeProfitPercentage parent1 \<or>
      takeProfitPercentage child = takeProfitPercentage parent2) \<and>
   (maxDrawdown child = maxDrawdown parent1 \<or> maxDrawdown child = maxDrawdown parent2) \<and>
   set (indicators child) = set (indicators parent1) \<union> set (indicators parent2) \<and>
   distinct (indicators child) \<and>
   (within_bounds cfg parent1 \<and> within_bounds cfg parent2 \<longrightarrow> within_bounds cfg child)"
  unfolding child_def
  by (simp add: crossover_def within_bounds_def coin_cases coin_pred)

theorem crossover_inherits_witness:
  "within_bounds (cfg0 2 1 (Fin 0)) strat \<and> within_bounds (cfg0 2 1 (Fin 0)) strat2 \<and>
   within_bounds (cfg0 2 1 (Fin 0)) (fst (crossover halves 0 strat strat2)) \<and>
   fst (crossover halves 0 strat strat2)
     = \<lparr>name = Strategy_random (1 / 4), description = ''Optimized strategy'', riskLevel = High,
        maxPositionSize = Fin 1, stopLossPercentage = Fin 2, takeProfitPercentage = Fin 10,
        maxDrawdown = Fin (1 / 10), rebalanceFrequency = Daily,
        indicators = [''sma'', ''ema'', ''rsi'']\<rparr>"
proof -
  have p1: "within_bounds (cfg0 2 1 (Fin 0)) strat"
    by (simp add: within_bounds_def in_bound_def cfg0_def cons0_def strat_def jle_def jeq_def)
  have p2: "within_bounds (cfg0 2 1 (Fin 0)) strat2"
    by (simp add: within_bounds_def in_bound_def cfg0_def cons0_def strat2_def jle_def jeq_def)
  from crossover_inherits[of halves 0 strat strat2 "cfg0 2 1 (Fin 0)"] p1 p2
  have c: "within_bounds (cfg0 2 1 (Fin 0)) (fst (crossover halves 0 strat strat2))"
    by blast
  have v: "fst (crossover halves 0 strat strat2)
     = \<lparr>name = Strategy_random (1 / 4), description = ''Optimized strategy'', riskLevel = High,
        maxPositionSize = Fin 1, stopLossPercentage = Fin 2, takeProfitPercentage = Fin 10,
        maxDrawdown = Fin (1 / 10), rebalanceFrequency = Daily,
        indicators = [''sma'', ''ema'', ''rsi'']\<rparr>"
    by (simp add: crossover_def coin_def halves_def strat_def strat2_def)
  show ?thesis using p1 p2 c v by simp
qed

lemma mutate_field_zero:
  "mutationRate cfg = Fin 0 \<Longrightarrow> 0 \<le> rnd k \<Longrightarrow> mutate_field cfg rnd k b v = (v, Suc k)"
  by (simp add: mutate_field_def)

lemma mutate_field_one:
  "mutationRate cfg = Fin 1 \<Longrightarrow> rnd k < 1 \<Longrightarrow>
   mutate_field cfg rnd k b v = (fst (randomInRange rnd (Suc k) b), Suc (Suc k))"
  by (simp add: mutate_field_def randomInRange_def split: prod.splits)

lemma jle_Fin: "jle (Fin a) (Fin b) \<longleftrightarrow> a \<le> b"
  by (auto simp: jle_def jeq_def)

lemma fin_exact: "\<not> overflows x \<Longrightarrow> fin x = Fin x"
  by (simp add: fin_def)

lemma overflows_mono: "\<not> overflows y \<Longrightarrow> \<bar>x\<bar> \<le> \<bar>y\<bar> \<Longrightarrow> \<not> overflows x"
  by (simp add: overflows_def)

lemma overflows_between:
  "\<not> overflows lo \<Longrightarrow> \<not> overflows hi \<Longrightarrow> lo \<le> x \<Longrightarrow> x \<le> hi \<Longrightarrow> \<not> overflows x"
  by (simp add: overflows_def abs_le_iff)

lemma randomInRange_in_bound:
  assumes "valid_bound b" and "finite_span b" and "0 \<le> rnd k" and "rnd k < 1"
  shows "in_bound b (fst (randomInRange rnd k b))"
proof -
  from assms(1) obtain lo hi where b: "b = (Fin lo, Fin hi)" and le: "lo \<le> hi"
    by (cases b rule: valid_bound.cases) simp_all
  from assms(2) have nlo: "\<not> overflows lo" and nhi: "\<not> overflows hi"
    and nw: "\<not> overflows (hi - lo)"
    by (simp_all add: b)
  define x where "x = rnd k * (hi - lo)"
  have "x \<le> 1 * (hi - lo)"
    unfolding x_def using assms(4) le by (intro mult_right_mono) simp_all
  moreover have x0: "0 \<le> x"
    unfolding x_def using assms(3) le by simp
  ultimately have range: "lo \<le> lo + x \<and> lo + x \<le> hi" and xw: "\<bar>x\<bar> \<le> \<bar>hi - lo\<bar>"
    by simp_all
  have w: "jsub (Fin hi) (Fin lo) = Fin (hi - lo)"
    using nw by (simp add: jsub_def fin_exact)
  have p: "fin (rnd k * (hi - lo)) = Fin x"
    using overflows_mono[OF nw xw] by (simp add: fin_exact x_def)
  have q: "fin (lo + x) = Fin (lo + x)"
    using overflows_between[OF nlo nhi] range by (simp add: fin_exact)
  have "fst (randomInRange rnd k b) = Fin (lo + x)"
    by (simp add: b randomInRange_def w p q)
  with range show ?thesis
    by (simp only: b in_bound_def jle_Fin prod.case)
qed

lemma mutate_field_snd: "k < snd (mutate_field cfg rnd k b v)"
  by (simp add: mutate_field_def randomInRange_def split: prod.splits)

lemma mutate_field_fst:
  "fst (mutate_field cfg rnd k b v) =
     (if jlt (Fin (rnd k)) (mutationRate cfg) then fst (randomInRange rnd (Suc k) b) else v)"
  by (simp add: mutate_field_def)

lemma mutate_zero:
  assumes "mutationRate cfg = Fin 0" and "unit_draws rnd"
  shows "mutate cfg rnd k s = (s, k + 4)"
proof -
  have "\<And>j b v. mutate_field cfg rnd j b v = (v, Suc j)"
    using assms by (simp add: mutate_field_zero unit_draws_def)
  then show ?thesis by (simp add: mutate_def)
qed

lemma mutate_one:
  assumes "mutationRate cfg = Fin 1" and "unit_draws rnd"
  shows "mutate cfg rnd k s =
    (s\<lparr>maxPositionSize := fst (randomInRange rnd (k + 1) (c_maxPositionSize (constraints cfg))),
       stopLossPercentage :=
         fst (randomInRange rnd (k + 3) (c_stopLossPercentage (constraints cfg))),
       takeProfitPercentage :=
         fst (randomInRange rnd (k + 5) (c_takeProfitPercentage (constraints cfg))),
       maxDrawdown := fst (randomInRange rnd (k + 7) (c_maxDrawdown (constraints cfg)))\<rparr>,
     k + 8)"
proof -
  have "\<And>j b v. mutate_field cfg rnd j b v = (fst (randomInRange rnd (Suc j) b), Suc (Suc j))"
    using assms by (simp add: mutate_field_one unit_draws_def)
  then show ?thesis by (simp add: mutate_def eval_nat_numeral)
qed

lemma mutate_fields:
  "\<exists>k1 k2 k3 k4. k1 = k \<and> k1 < k2 \<and> k2 < k3 \<and> k3 < k4 \<and>
     fst (mutate cfg rnd k s) =
       s\<lparr>maxPositionSize :=
            fst (mutate_field cfg rnd k1 (c_maxPositionSize (constraints cfg)) (maxPositionSize s)),
         stopLossPercentage :=
            fst (mutate_field cfg rnd k2 (c_stopLossPercentage (constraints cfg))
                  (stopLossPercentage s)),
         takeProfitPercentage :=
            fst (mutate_field cfg rnd k3 (c_takeProfitPercentage (constraints cfg))
                  (takeProfitPercentage s)),
         maxDrawdown :=
            fst (mutate_field cfg rnd k4 (c_maxDrawdown (constraints cfg)) (maxDrawdown s))\<rparr>"
proof -
  let ?k2 = "snd (mutate_field cfg rnd k (c_maxPositionSize (constraints cfg)) (maxPositionSize s))"
  let ?k3 = "snd (mutate_field cfg rnd ?k2 (c_stopLossPercentage (constraints cfg))
                  (stopLossPercentage s))"
  let ?k4 = "snd (mutate_field cfg rnd ?k3 (c_takeProfitPercentage (constraints cfg))
                  (takeProfitPercentage s))"
  show ?thesis
    apply (rule exI[of _ k], rule exI[of _ ?k2], rule exI[of _ ?k3], rule exI[of _ ?k4])
    apply (simp add: mutate_field_snd mutate_def Let_def split_beta)
    done
qed

lemma unit_draws_halves: "unit_draws halves"
  by (simp add: unit_draws_def halves_def)

lemma huge_positive: "0 < huge"
  by (simp add: huge_def)

lemma huge_width: "overflows (huge + huge)"
  by (simp add: huge_def overflows_def)

text \<open>
  C7, as the claim states it, fails for the part on bounds. With mutation rate 1 and a
  position-size bound from \<open>-2^1023\<close> to \<open>2^1023\<close> (two doubles with \<open>min \<le> max\<close>), the
  width \<^verbatim>\<open>max - min\<close> overflows to \<^verbatim>\<open>Infinity\<close> and the redrawn field is \<^verbatim>\<open>Infinity\<close>, outside
  the bound. With the stop-loss bound from 10 to 1 (\<open>min > max\<close>) the redrawn field is
  3.25, which the bound excludes.
\<close>

theorem mutate_bounds_counterexample:
  "huge = 2 ^ 1023 \<and>
   mutationRate cfg_wide = Fin 1 \<and>
   c_maxPositionSize (constraints cfg_wide) = (Fin (- huge), Fin huge) \<and>
   valid_constraints (constraints cfg_wide) \<and>
   maxPositionSize (fst (mutate cfg_wide halves 0 strat)) = PInf \<and>
   \<not> within_bounds cfg_wide (fst (mutate cfg_wide halves 0 strat)) \<and>
   mutationRate cfg_inverted = Fin 1 \<and>
   c_stopLossPercentage (constraints cfg_inverted) = (Fin 10, Fin 1) \<and>
   stopLossPercentage (fst (mutate cfg_inverted halves 0 strat)) = Fin (13 / 4) \<and>
   \<not> within_bounds cfg_inverted (fst (mutate cfg_inverted halves 0 strat))"
proof -
  have w1: "mutationRate cfg_wide = Fin 1"
    and w2: "c_maxPositionSize (constraints cfg_wide) = (Fin (- huge), Fin huge)"
    by (simp_all add: cfg_wide_def cfg0_def)
  have "- huge \<le> huge" using huge_positive by simp
  then have w3: "valid_constraints (constraints cfg_wide)"
    by (simp add: cfg_wide_def cfg0_def cons0_def valid_constraints_def)
  have "fin (huge + huge) = PInf"
    using huge_width huge_positive by (simp add: fin_def signedInf_def)
  then have "fst (randomInRange halves (0 + 1) (Fin (- huge), Fin huge)) = PInf"
    by (simp add: randomInRange_def jsub_def signedInf_def halves_def)
  then have w4: "maxPositionSize (fst (mutate cfg_wide halves 0 strat)) = PInf"
    unfolding mutate_one[OF w1 unit_draws_halves] by (simp add: w2)
  then have w5: "\<not> within_bounds cfg_wide (fst (mutate cfg_wide halves 0 strat))"
    by (simp add: within_bounds_def in_bound_def w2 jle_def jeq_def)
  have i1: "mutationRate cfg_inverted = Fin 1"
    and i2: "c_stopLossPercentage (constraints cfg_inverted) = (Fin 10, Fin 1)"
    by (simp_all add: cfg_inverted_def cfg0_def cons_bad_def)
  have "fst (randomInRange halves (0 + 3) (Fin 10, Fin 1)) = Fin (13 / 4)"
    by (simp add: randomInRange_def jsub_def halves_def)
  then have i3: "stopLossPercentage (fst (mutate cfg_inverted halves 0 strat)) = Fin (13 / 4)"
    unfolding mutate_one[OF i1 unit_draws_halves] by (simp add: i2)
  then have i4: "\<not> within_bounds cfg_inverted (fst (mutate cfg_inverted halves 0 strat))"
    by (simp add: within_bounds_def in_bound_def i2 jle_def jeq_def)
  show ?thesis using huge_def w1 w2 w3 w4 w5 i1 i2 i3 i4 by blast
qed

text \<open>
  C7, amended. Let the draws lie in \<open>[0, 1)\<close>. With mutation rate 0 the result of
  \<open>mutate\<close> is its input. With mutation rate 1 every numeric field is redrawn as
  \<^verbatim>\<open>min + Math.random() * (max - min)\<close> from a draw of its own, and lies within its bound
  when every bound has \<open>min \<le> max\<close> and a width \<open>max - min\<close> that does not overflow. At
  any rate each numeric field has its own test draw: the field is redrawn when that
  draw is below the rate and is the input's field otherwise; the other fields are never
  changed.
\<close>

theorem mutate_rates:
  fixes cfg :: OptimizationConfig and rnd :: random and k :: nat and s :: StrategyConfig
  defines "m \<equiv> fst (mutate cfg rnd k s)"
  assumes draws: "unit_draws rnd"
  shows
  "(mutationRate cfg = Fin 0 \<longrightarrow> m = s) \<and>
   (mutationRate cfg = Fin 1 \<longrightarrow>
      maxPositionSize m = fst (randomInRange rnd (k + 1) (c_maxPositionSize (constraints cfg))) \<and>
      stopLossPercentage m
        = fst (randomInRange rnd (k + 3) (c_stopLossPercentage (constraints cfg))) \<and>
      takeProfitPercentage m
        = fst (randomInRange rnd (k + 5) (c_takeProfitPercentage (constraints cfg))) \<and>
      maxDrawdown m = fst (randomInRange rnd (k + 7) (c_maxDrawdown (constraints cfg))) \<and>
      (valid_constraints (constraints cfg) \<and> finite_spans (constraints cfg) \<longrightarrow>
         within_bounds cfg m)) \<and>
   (\<exists>k1 k2 k3 k4. k1 = k \<and> k1 < k2 \<and> k2 < k3 \<and> k3 < k4 \<and>
      m = s\<lparr>maxPositionSize :=
               (if jlt (Fin (rnd k1)) (mutationRate cfg)
                then fst (randomInRange rnd (Suc k1) (c_maxPositionSize (constraints cfg)))
                else maxPositionSize s),
             stopLossPercentage :=
               (if jlt (Fin (rnd k2)) (mutationRate cfg)
                then fst (randomInRange rnd (Suc k2) (c_stopLossPercentage (constraints cfg)))
                else stopLossPercentage s),
             takeProfitPercentage :=
               (if jlt (Fin (rnd k3)) (mutationRate cfg)
                then fst (randomInRange rnd (Suc k3) (c_takeProfitPercentage (constraints cfg)))
                else takeProfitPercentage s),
             maxDrawdown :=
               (if jlt (Fin (rnd k4)) (mutationRate cfg)
                then fst (randomInRange rnd (Suc k4) (c_maxDrawdown (constraints cfg)))
                else maxDrawdown s)\<rparr>)"
proof (intro conjI impI)
  assume "mutationRate cfg = Fin 0"
  then show "m = s" unfolding m_def using draws by (simp add: mutate_zero)
next
  assume one: "mutationRate cfg = Fin 1"
  note eq = mutate_one[OF one draws, of k s]
  show "maxPositionSize m = fst (randomInRange rnd (k + 1) (c_maxPositionSize (constraints cfg)))"
    unfolding m_def eq by simp
  show "stopLossPercentage m
        = fst (randomInRange rnd (k + 3) (c_stopLossPercentage (constraints cfg)))"
    unfolding m_def eq by simp
  show "takeProfitPercentage m
        = fst (randomInRange rnd (k + 5) (c_takeProfitPercentage (constraints cfg)))"
    unfolding m_def eq by simp
  show "maxDrawdown m = fst (randomInRange rnd (k + 7) (c_maxDrawdown (constraints cfg)))"
    unfolding m_def eq by simp
  assume "valid_constraints (constraints cfg) \<and> finite_spans (constraints cfg)"
  then show "within_bounds cfg m"
    unfolding m_def eq using draws
    by (simp add: within_bounds_def valid_constraints_def finite_spans_def unit_draws_def
        randomInRange_in_bound)
next
  show "\<exists>k1 k2 k3 k4. k1 = k \<and> k1 < k2 \<and> k2 < k3 \<and> k3 < k4 \<and>
      m = s\<lparr>maxPositionSize :=
               (if jlt (Fin (rnd k1)) (mutationRate cfg)
                then fst (randomInRange rnd (Suc k1) (c_maxPositionSize (constraints cfg)))
                else maxPositionSize s),
             stopLossPercentage :=
               (if jlt (Fin (rnd k2)) (mutationRate cfg)
                then fst (randomInRange rnd (Suc k2) (c_stopLossPercentage (constraints cfg)))
                else stopLossPercentage s),
             takeProfitPercentage :=
               (if jlt (Fin (rnd k3)) (mutationRate cfg)
                then fst (randomInRange rnd (Suc k3) (c_takeProfitPercentage (constraints cfg)))
                else takeProfitPercentage s),
             maxDrawdown :=
               (if jlt (Fin (rnd k4)) (mutationRate cfg)
                then fst (randomInRange rnd (Suc k4) (c_maxDrawdown (constraints cfg)))
                else maxDrawdown s)\<rparr>"
    unfolding m_def using mutate_fields[of k cfg rnd s] by (simp only: mutate_field_fst)
qed

lemma valid_cons0: "valid_constraints cons0"
  by (simp add: valid_constraints_def cons0_def)

lemma finite_cons0: "finite_spans cons0"
  by (simp add: finite_spans_def cons0_def overflows_def)

theorem mutate_rates_witness:
  "unit_draws halves \<and> valid_constraints (constraints (cfg0 2 1 (Fin 1))) \<and>
   finite_spans (constraints (cfg0 2 1 (Fin 1))) \<and>
   fst (mutate (cfg0 2 1 (Fin 0)) halves 0 strat) = strat \<and>
   fst (mutate (cfg0 2 1 (Fin 1)) halves 0 strat)
     = strat\<lparr>maxPositionSize := Fin (31 / 40), stopLossPercentage := Fin (31 / 4),
             takeProfitPercentage := Fin (31 / 2), maxDrawdown := Fin (31 / 80)\<rparr> \<and>
   within_bounds (cfg0 2 1 (Fin 1)) (fst (mutate (cfg0 2 1 (Fin 1)) halves 0 strat))"
proof -
  have zero: "mutationRate (cfg0 2 1 (Fin 0)) = Fin 0" and one: "mutationRate (cfg0 2 1 (Fin 1)) = Fin 1"
    and valid: "valid_constraints (constraints (cfg0 2 1 (Fin 1)))"
    and span: "finite_spans (constraints (cfg0 2 1 (Fin 1)))"
    by (simp_all add: cfg0_def valid_cons0 finite_cons0)
  let ?m = "fst (mutate (cfg0 2 1 (Fin 1)) halves 0 strat)"
  from mutate_rates[OF unit_draws_halves, of "cfg0 2 1 (Fin 0)" 0 strat] zero
  have a: "fst (mutate (cfg0 2 1 (Fin 0)) halves 0 strat) = strat" by blast
  from mutate_rates[OF unit_draws_halves, of "cfg0 2 1 (Fin 1)" 0 strat] one valid span
  have b: "within_bounds (cfg0 2 1 (Fin 1)) ?m" by blast
  have c: "?m = strat\<lparr>maxPositionSize := Fin (31 / 40), stopLossPercentage := Fin (31 / 4),
             takeProfitPercentage := Fin (31 / 2), maxDrawdown := Fin (31 / 80)\<rparr>"
    unfolding mutate_one[OF one unit_draws_halves]
    by (simp add: randomInRange_def cfg0_def cons0_def halves_def jsub_def)
  show ?thesis using a b c valid span unit_draws_halves by simp
qed

section \<open>Properties of the selection\<close>

lemma jgt_diff: "a \<noteq> NaN \<Longrightarrow> b \<noteq> NaN \<Longrightarrow> jgt (jsub b a) (Fin 0) \<longleftrightarrow> jlt a b"
  by (cases a; cases b) (simp_all add: jgt_def jsub_def jlt_zero_fin)

lemma jgt_diff_same: "\<not> jgt (jsub a a) (Fin 0)"
  by (cases a) (simp_all add: jgt_def jsub_def)

lemma jge_total: "a \<noteq> NaN \<Longrightarrow> b \<noteq> NaN \<Longrightarrow> \<not> jlt a b \<Longrightarrow> jge a b"
  by (cases a; cases b) (auto simp: jge_def jle_def jeq_def)

lemma jlt_jge: "jlt a b \<Longrightarrow> jge b a"
  by (simp add: jge_def jle_def)

lemma jge_trans: "jge a b \<Longrightarrow> jge b c \<Longrightarrow> jge a c"
  by (cases a; cases b; cases c) (auto simp: jge_def jle_def jeq_def)

lemma mset_insert_sorted: "mset (insert_sorted cmp x ys) = add_mset x (mset ys)"
  by (induction ys) simp_all

lemma set_insert_sorted: "set (insert_sorted cmp x ys) = insert x (set ys)"
  by (induction ys) auto

lemma array_sort_Cons: "array_sort cmp (x # xs) = insert_sorted cmp x (array_sort cmp xs)"
  by (simp add: array_sort_def)

lemma array_sort_Nil: "array_sort cmp [] = []"
  by (simp add: array_sort_def)

lemma mset_array_sort: "mset (array_sort cmp xs) = mset xs"
  by (induction xs) (simp_all add: array_sort_Cons array_sort_Nil mset_insert_sorted)

lemma set_array_sort: "set (array_sort cmp xs) = set xs"
  using mset_array_sort[of cmp xs] by (metis set_mset_mset)

lemma length_array_sort: "length (array_sort cmp xs) = length xs"
  using mset_array_sort[of cmp xs] by (metis size_mset)

lemma sorted_insert_sorted:
  assumes "sorted_wrt (\<lambda>a b. jge (score obj a) (score obj b)) ys"
    and "score obj x \<noteq> NaN" and "\<forall>y \<in> set ys. score obj y \<noteq> NaN"
  shows "sorted_wrt (\<lambda>a b. jge (score obj a) (score obj b)) (insert_sorted (compare_desc obj) x ys)"
  using assms
proof (induction ys)
  case Nil
  then show ?case by simp
next
  case (Cons y ys)
  show ?case
  proof (cases "jlt (score obj x) (score obj y)")
    case True
    then have "insert_sorted (compare_desc obj) x (y # ys) = y # insert_sorted (compare_desc obj) x ys"
      using Cons.prems by (simp add: compare_desc_def jgt_diff)
    moreover have "sorted_wrt (\<lambda>a b. jge (score obj a) (score obj b)) (insert_sorted (compare_desc obj) x ys)"
      using Cons by simp
    moreover have "\<forall>z \<in> set (insert_sorted (compare_desc obj) x ys). jge (score obj y) (score obj z)"
      using Cons.prems(1) True by (auto simp: set_insert_sorted jlt_jge)
    ultimately show ?thesis by simp
  next
    case False
    then have eq: "insert_sorted (compare_desc obj) x (y # ys) = x # y # ys"
      using Cons.prems by (simp add: compare_desc_def jgt_diff)
    have xy: "jge (score obj x) (score obj y)"
      using False Cons.prems by (simp add: jge_total)
    then have "\<forall>z \<in> set ys. jge (score obj x) (score obj z)"
      using Cons.prems(1) by (auto intro: jge_trans)
    then show ?thesis using eq xy Cons.prems(1) by simp
  qed
qed

lemma sorted_array_sort:
  "\<forall>r \<in> set xs. score obj r \<noteq> NaN \<Longrightarrow>
   sorted_wrt (\<lambda>a b. jge (score obj a) (score obj b)) (array_sort (compare_desc obj) xs)"
  by (induction xs) (simp_all add: array_sort_Cons array_sort_Nil sorted_insert_sorted set_array_sort)

lemma filter_insert_sorted:
  "filter (\<lambda>r. score obj r = v) (insert_sorted (compare_desc obj) x ys)
     = filter (\<lambda>r. score obj r = v) (x # ys)"
proof (induction ys)
  case Nil
  then show ?case by simp
next
  case (Cons y ys)
  show ?case
  proof (cases "jgt (compare_desc obj x y) (Fin 0)")
    case False
    then show ?thesis by simp
  next
    case True
    then have "\<not> (score obj x = v \<and> score obj y = v)"
      using jgt_diff_same[of v] by (auto simp: compare_desc_def)
    then show ?thesis using True Cons by auto
  qed
qed

lemma filter_array_sort:
  "filter (\<lambda>r. score obj r = v) (array_sort (compare_desc obj) xs)
     = filter (\<lambda>r. score obj r = v) xs"
  by (induction xs) (simp_all add: array_sort_Cons array_sort_Nil filter_insert_sorted)

text \<open>
  When no score is \<open>NaN\<close>, the sorted array is a rearrangement of the results in
  descending order of the objective in which candidates of equal score keep their
  original order, and the selection is its first \<open>floor(n / 2)\<close> elements. On five
  candidates with scores 0.1, 0.5, 0.3, 0.5, 0.2 the selection is the second and the
  fourth candidate, in this order.
\<close>

lemma selection_without_NaN:
  "((\<forall>r \<in> set results. score obj r \<noteq> NaN) \<longrightarrow>
      mset (array_sort (compare_desc obj) results) = mset results \<and>
      sorted_wrt (\<lambda>a b. jge (score obj a) (score obj b)) (array_sort (compare_desc obj) results) \<and>
      (\<forall>v. filter (\<lambda>r. score obj r = v) (array_sort (compare_desc obj) results)
            = filter (\<lambda>r. score obj r = v) results) \<and>
      selection obj results (length results)
        = take (length results div 2) (array_sort (compare_desc obj) results) \<and>
      length (selection obj results (length results)) = length results div 2) \<and>
   (map (score obj) [r1, r2, r3, r4, r5]
        = [Fin (1 / 10), Fin (5 / 10), Fin (3 / 10), Fin (5 / 10), Fin (2 / 10)] \<longrightarrow>
      selection obj [r1, r2, r3, r4, r5] 5 = [r2, r4])"
proof (intro conjI impI allI)
  show "mset (array_sort (compare_desc obj) results) = mset results"
    by (rule mset_array_sort)
  show "selection obj results (length results)
        = take (length results div 2) (array_sort (compare_desc obj) results)"
    by (simp add: selection_def)
  show "length (selection obj results (length results)) = length results div 2"
    by (simp add: selection_def length_array_sort)
  show "filter (\<lambda>r. score obj r = v) (array_sort (compare_desc obj) results)
            = filter (\<lambda>r. score obj r = v) results" for v
    by (rule filter_array_sort)
next
  assume "\<forall>r \<in> set results. score obj r \<noteq> NaN"
  then show "sorted_wrt (\<lambda>a b. jge (score obj a) (score obj b))
      (array_sort (compare_desc obj) results)"
    by (rule sorted_array_sort)
next
  assume "map (score obj) [r1, r2, r3, r4, r5]
        = [Fin (1 / 10), Fin (5 / 10), Fin (3 / 10), Fin (5 / 10), Fin (2 / 10)]"
  then show "selection obj [r1, r2, r3, r4, r5] 5 = [r2, r4]"
    by (simp add: selection_def array_sort_def compare_desc_def jsub_def jgt_def)
qed

subsection \<open>Selection among results with a score that is not a number\<close>

lemma simulate_hist:
  "simulate s hist
     = Inr (sim_step s hist 22 (hist ! 22) \<lparr>returns = [], position = 1, entryPrice = Fin 100\<rparr>)"
proof -
  let ?st = "\<lparr>returns = [], position = 1, entryPrice = Fin 100\<rparr>"
  have "simulate s hist
      = simulate_loop s hist 21 \<lparr>returns = [], position = 0, entryPrice = Fin 0\<rparr>"
    unfolding simulate_def by (rule simulate_loop_skip[where n = 20]) (simp_all add: hist_length)
  also have "\<dots> = simulate_loop s hist 22 ?st"
    using simulate_loop_step[of 21 hist s] by (simp add: hist_length hist_entry)
  also have "\<dots> = simulate_loop s hist 23 (sim_step s hist 22 (hist ! 22) ?st)"
    using simulate_loop_step[of 22 hist s ?st] by (simp add: hist_length)
  also have "\<dots> = Inr (sim_step s hist 22 (hist ! 22) ?st)"
    by (simp add: simulate_loop_stop hist_length)
  finally show ?thesis .
qed

lemma returns_strat: "trade_returns strat hist = Inr [Fin (- (1 / 20))]"
  by (simp add: trade_returns_def simulate_hist hist_22 sim_step_def stopLoss_of_def
      takeProfit_of_def exit_touched_def exitPrice_of_def trade_return_def Math_min_def
      jle_def jge_def jeq_def jsub_def strat_def bar_def)

lemma returns_wide: "trade_returns strat_wide hist = Inr []"
  by (simp add: trade_returns_def simulate_hist hist_22 sim_step_def stopLoss_of_def
      takeProfit_of_def exit_touched_def exitPrice_of_def trade_return_def Math_min_def
      jle_def jge_def jeq_def jsub_def strat_wide_def strat_def bar_def)

lemma returns_tight: "trade_returns strat_tight hist = Inr [Fin (- (11 / 200))]"
  by (simp add: trade_returns_def simulate_hist hist_22 sim_step_def stopLoss_of_def
      takeProfit_of_def exit_touched_def exitPrice_of_def trade_return_def Math_min_def
      jle_def jge_def jeq_def jsub_def strat_tight_def strat_def bar_def)

lemma sqrt_252: "0 < sqrt 252" "sqrt 252 \<le> 16"
proof -
  show "0 < sqrt 252" by simp
  have "sqrt 252 \<le> sqrt (16 ^ 2)" by (simp only: real_sqrt_le_iff) simp
  then show "sqrt 252 \<le> 16" by simp
qed

lemma fin_sqrt_252: "\<bar>q\<bar> \<le> 1000 \<Longrightarrow> fin (q * sqrt 252) = Fin (q * sqrt 252)"
proof -
  assume "\<bar>q\<bar> \<le> 1000"
  then have "\<bar>q * sqrt 252\<bar> \<le> 1000 * 16"
    unfolding abs_mult using sqrt_252 by (intro mult_mono) simp_all
  then show ?thesis by (intro fin_small) simp
qed

lemma sqrt_400: "sqrt 400 = 20"
  using real_sqrt_abs[of 20] by simp

lemma sqrt_40000: "sqrt 40000 = 200"
  using real_sqrt_abs[of 200] by simp

lemma sortino_strat:
  "sortinoRatio (calculateMetrics [Fin (- (1 / 20))]) = Fin (- (631 / 630) * sqrt 252)"
  using fin_sqrt_252[of "- (631 / 630)"]
  by (simp add: calculateMetrics_def Let_def jlength_def jsub_def jeq_def power2_eq_square real_sqrt_divide
      sqrt_400)

lemma sortino_tight:
  "sortinoRatio (calculateMetrics [Fin (- (11 / 200))]) = Fin (- (694 / 693) * sqrt 252)"
  using fin_sqrt_252[of "- (694 / 693)"]
  by (simp add: calculateMetrics_def Let_def jlength_def jsub_def jeq_def power2_eq_square real_sqrt_divide
      sqrt_40000)

lemma sortino_none: "sortinoRatio (calculateMetrics []) = NaN"
  by (simp add: calculateMetrics_def Let_def jlength_def jsub_def jeq_def)

lemma score_result_a: "score SortinoRatio result_a = Fin (- (631 / 630) * sqrt 252)"
  by (simp only: score_def result_a_def OptimizationResult.simps metric.simps sortino_strat)

lemma score_result_b: "score SortinoRatio result_b = NaN"
  by (simp only: score_def result_b_def OptimizationResult.simps metric.simps sortino_none)

lemma score_result_c: "score SortinoRatio result_c = Fin (- (694 / 693) * sqrt 252)"
  by (simp only: score_def result_c_def OptimizationResult.simps metric.simps sortino_tight)

text \<open>
  C5. The claim is that the selection is the first \<open>floor(n / 2)\<close> of the evaluated
  candidates in descending order of the objective. A candidate that closes no trade has
  the metrics of the empty return sequence, whose Sharpe and Sortino ratios are \<open>NaN\<close>;
  the comparator \<^verbatim>\<open>b - a\<close> then returns \<open>NaN\<close>, which the sort reads as "equal", and the
  order of the other candidates is not established. On the 23-bar example history with
  the Sortino ratio as objective, the first candidate closes its trade at -5 percent,
  the second closes none and the third closes its trade at -5.5 percent and has the
  greatest Sortino ratio; the selection of \<open>floor(3 / 2)\<close> candidates is the first
  candidate, not the third. The theorem evaluates the code there.
\<close>

theorem selection_with_NaN:
  "promise_all (map (\<lambda>s. evaluateStrategy s hist) [strat, strat_wide, strat_tight])
     = Inr [result_a, result_b, result_c] \<and>
   map (score SortinoRatio) [result_a, result_b, result_c]
     = [Fin (- (631 / 630) * sqrt 252), NaN, Fin (- (694 / 693) * sqrt 252)] \<and>
   jgt (score SortinoRatio result_c) (score SortinoRatio result_a) \<and>
   selection SortinoRatio [result_a, result_b, result_c] 3 = [result_a]"
proof (intro conjI)
  show "promise_all (map (\<lambda>s. evaluateStrategy s hist) [strat, strat_wide, strat_tight])
     = Inr [result_a, result_b, result_c]"
    by (simp add: evaluateStrategy_def returns_strat returns_wide returns_tight
        result_a_def result_b_def result_c_def)
  show "map (score SortinoRatio) [result_a, result_b, result_c]
     = [Fin (- (631 / 630) * sqrt 252), NaN, Fin (- (694 / 693) * sqrt 252)]"
    by (simp only: list.map score_result_a score_result_b score_result_c)
  have "- (631 / 630) * sqrt 252 < - (694 / 693) * sqrt 252"
    using sqrt_252(1) by simp
  then show "jgt (score SortinoRatio result_c) (score SortinoRatio result_a)"
    by (simp only: score_result_a score_result_c jgt_def jlt.simps)
  have ab: "\<not> jgt (compare_desc SortinoRatio result_a result_b) (Fin 0)"
    and bc: "\<not> jgt (compare_desc SortinoRatio result_b result_c) (Fin 0)"
    by (simp_all add: compare_desc_def score_result_a score_result_b score_result_c jsub_def
        jgt_def del: mult_minus_left)
  show "selection SortinoRatio [result_a, result_b, result_c] 3 = [result_a]"
    by (simp add: selection_def array_sort_def ab bc)
qed

section \<open>Properties of the optimizer loop\<close>

subsection \<open>Initial population\<close>

lemma initial_member_snd: "snd (initial_member cfg rnd i k) = k + 4"
  by (simp add: initial_member_def randomInRange_def split: prod.splits)

lemma initial_loop_stop:
  "\<not> int i < populationSize cfg \<Longrightarrow> initial_loop cfg rnd i pop k = (pop, k)"
  by (subst initial_loop.simps) simp

lemma initial_loop_step:
  "int i < populationSize cfg \<Longrightarrow>
   initial_loop cfg rnd i pop k
     = initial_loop cfg rnd (Suc i) (pop @ [fst (initial_member cfg rnd i k)]) (k + 4)"
  using initial_member_snd[of cfg rnd i k]
  by (subst initial_loop.simps) (auto split: prod.splits)

lemma initial_loop_shape:
  "nat (populationSize cfg) - i = n \<Longrightarrow>
   length (fst (initial_loop cfg rnd i pop k)) = length pop + n \<and>
   snd (initial_loop cfg rnd i pop k) = k + 4 * n"
proof (induction n arbitrary: i pop k)
  case 0
  then have "\<not> int i < populationSize cfg" by linarith
  then show ?case by (simp add: initial_loop_stop)
next
  case (Suc n)
  then have lt: "int i < populationSize cfg" by linarith
  have "nat (populationSize cfg) - Suc i = n" using Suc.prems by simp
  from Suc.IH[OF this] show ?case by (simp add: initial_loop_step[OF lt])
qed

lemma generateInitialPopulation_length:
  "length (fst (generateInitialPopulation cfg rnd k)) = nat (populationSize cfg)"
  using initial_loop_shape[of cfg 0 "nat (populationSize cfg)" rnd "[]" k]
  by (simp add: generateInitialPopulation_def)

lemma generateInitialPopulation_snd:
  "snd (generateInitialPopulation cfg rnd k) = k + 4 * nat (populationSize cfg)"
  using initial_loop_shape[of cfg 0 "nat (populationSize cfg)" rnd "[]" k]
  by (simp add: generateInitialPopulation_def)

lemma initial_loop_prefix:
  "nat (populationSize cfg) - i = n \<Longrightarrow> \<exists>ms. fst (initial_loop cfg rnd i pop k) = pop @ ms"
proof (induction n arbitrary: i pop k)
  case 0
  then have "\<not> int i < populationSize cfg" by linarith
  then show ?case by (simp add: initial_loop_stop)
next
  case (Suc n)
  then have lt: "int i < populationSize cfg" by linarith
  have "nat (populationSize cfg) - Suc i = n" using Suc.prems by simp
  from Suc.IH[OF this, of "pop @ [fst (initial_member cfg rnd i k)]" "k + 4"]
  show ?case by (auto simp: initial_loop_step[OF lt])
qed

lemma generateInitialPopulation_hd:
  assumes "1 \<le> populationSize cfg"
  shows "\<exists>ms. fst (generateInitialPopulation cfg rnd k) = fst (initial_member cfg rnd 0 k) # ms"
proof -
  have lt: "int 0 < populationSize cfg" using assms by simp
  obtain ms where "fst (initial_loop cfg rnd (Suc 0) ([] @ [fst (initial_member cfg rnd 0 k)]) (k + 4))
      = ([] @ [fst (initial_member cfg rnd 0 k)]) @ ms"
    using initial_loop_prefix[OF refl] by blast
  then show ?thesis
    by (simp add: generateInitialPopulation_def initial_loop_step[OF lt])
qed

subsection \<open>Evaluation of a population\<close>

lemma promise_all_evaluate:
  "promise_all (map (\<lambda>s. evaluateStrategy s d) pop)
     = Inr (map (\<lambda>s. \<lparr>parameters = s, metrics = calculateMetrics (projr (trade_returns s d))\<rparr>) pop)"
proof (induction pop)
  case Nil
  then show ?case by simp
next
  case (Cons s pop)
  obtain st where "simulate s d = Inr st"
    unfolding simulate_def using simulate_loop_total by blast
  then have "evaluateStrategy s d
      = Inr \<lparr>parameters = s, metrics = calculateMetrics (projr (trade_returns s d))\<rparr>"
    by (simp add: evaluateStrategy_def trade_returns_def)
  then show ?case using Cons by simp
qed

lemma promise_all_length:
  "promise_all xs = Inr rs \<Longrightarrow> length rs = length xs"
  by (induction xs arbitrary: rs rule: promise_all.induct) (auto split: sum.splits)

subsection \<open>Best of a generation\<close>

lemma foldl_better_mem: "foldl (better obj) r rs \<in> set (r # rs)"
proof (induction rs arbitrary: r)
  case Nil
  then show ?case by simp
next
  case (Cons a rs)
  from Cons[of "better obj r a"] show ?case by (auto simp: better_def split: if_splits)
qed

lemma reduce_best_mem: "reduce_best obj rs = Inr cb \<Longrightarrow> cb \<in> set rs"
  using foldl_better_mem by (cases rs) auto

lemma reduce_best_nonempty: "rs \<noteq> [] \<Longrightarrow> \<exists>cb. reduce_best obj rs = Inr cb"
  by (cases rs) simp_all

subsection \<open>Breeding\<close>

lemma crossover_snd: "snd (crossover rnd k p1 p2) = k + 7"
  by (simp add: crossover_def)

lemma mutate_field_snd_le: "snd (mutate_field cfg rnd k b v) \<le> k + 2"
  by (simp add: mutate_field_def randomInRange_def split: prod.splits)

lemma mutate_snd_le: "snd (mutate cfg rnd k s) \<le> k + 8"
proof -
  let ?a = "mutate_field cfg rnd k (c_maxPositionSize (constraints cfg)) (maxPositionSize s)"
  let ?b = "mutate_field cfg rnd (snd ?a) (c_stopLossPercentage (constraints cfg))
              (stopLossPercentage s)"
  let ?c = "mutate_field cfg rnd (snd ?b) (c_takeProfitPercentage (constraints cfg))
              (takeProfitPercentage s)"
  let ?d = "mutate_field cfg rnd (snd ?c) (c_maxDrawdown (constraints cfg)) (maxDrawdown s)"
  have "snd (mutate cfg rnd k s) = snd ?d"
    by (simp add: mutate_def split_beta Let_def)
  moreover have "snd ?a \<le> k + 2" "snd ?b \<le> snd ?a + 2" "snd ?c \<le> snd ?b + 2"
    "snd ?d \<le> snd ?c + 2"
    by (rule mutate_field_snd_le)+
  ultimately show ?thesis by linarith
qed

lemma pick_Some:
  assumes "selected \<noteq> []" and "0 \<le> r" and "r < 1"
  shows "\<exists>x. pick selected r = Some x"
proof -
  let ?n = "real (length selected)"
  have n: "0 < ?n" using assms(1) by simp
  have "0 \<le> r * ?n" using assms(2) by simp
  then have lo: "0 \<le> \<lfloor>r * ?n\<rfloor>" by simp
  have "r * ?n < 1 * ?n" using assms(3) n by (intro mult_strict_right_mono) simp_all
  then have "r * ?n < real_of_int (int (length selected))" by simp
  then have hi: "\<lfloor>r * ?n\<rfloor> < int (length selected)" by (simp only: floor_less_iff)
  show ?thesis using lo hi by (simp add: pick_def at_index_def)
qed

lemma pick_Nil: "pick [] r = None"
  by (simp add: pick_def at_index_def)

lemma breed_stop:
  "\<not> int (length newPop) < populationSize cfg \<Longrightarrow> breed cfg rnd selected newPop k = Inr (newPop, k)"
  by (subst breed.simps) simp

lemma breed_fail:
  "int (length newPop) < populationSize cfg \<Longrightarrow> breed cfg rnd [] newPop k = Inl TypeError"
  by (subst breed.simps) (simp add: pick_Nil)

lemma breed_step:
  "int (length newPop) < populationSize cfg \<Longrightarrow>
   pick selected (rnd k) = Some r1 \<Longrightarrow> pick selected (rnd (k + 1)) = Some r2 \<Longrightarrow>
   breed cfg rnd selected newPop k =
     breed cfg rnd selected
       (newPop @ [fst (mutate cfg rnd (k + 9)
                   (fst (crossover rnd (k + 2) (parameters r1) (parameters r2))))])
       (snd (mutate cfg rnd (k + 9)
                   (fst (crossover rnd (k + 2) (parameters r1) (parameters r2)))))"
proof -
  assume a: "int (length newPop) < populationSize cfg" "pick selected (rnd k) = Some r1"
    "pick selected (rnd (k + 1)) = Some r2"
  have c: "snd (crossover rnd (k + 2) (parameters r1) (parameters r2)) = k + 9"
    by (simp add: crossover_snd)
  show ?thesis
    by (subst breed.simps) (simp only: a c case_prod_beta if_True option.case)
qed

lemma breed_succeeds:
  assumes "selected \<noteq> []" and "unit_draws rnd"
  shows "nat (populationSize cfg) - length newPop = n \<Longrightarrow>
    \<exists>pop' k'. breed cfg rnd selected newPop k = Inr (pop', k') \<and>
      length pop' = length newPop + n \<and> k' \<le> k + 17 * n"
proof (induction n arbitrary: newPop k)
  case 0
  then have "\<not> int (length newPop) < populationSize cfg" by linarith
  then show ?case by (simp add: breed_stop)
next
  case (Suc n)
  then have lt: "int (length newPop) < populationSize cfg" by linarith
  from assms obtain r1 r2 where p1: "pick selected (rnd k) = Some r1"
    and p2: "pick selected (rnd (k + 1)) = Some r2"
    using pick_Some[of selected "rnd k"] pick_Some[of selected "rnd (k + 1)"]
    by (auto simp: unit_draws_def)
  let ?m = "mutate cfg rnd (k + 9) (fst (crossover rnd (k + 2) (parameters r1) (parameters r2)))"
  have "nat (populationSize cfg) - length (newPop @ [fst ?m]) = n" using Suc.prems by simp
  from Suc.IH[OF this, of "snd ?m"] obtain pop' k' where
    b: "breed cfg rnd selected (newPop @ [fst ?m]) (snd ?m) = Inr (pop', k')"
    and l: "length pop' = length (newPop @ [fst ?m]) + n" and k: "k' \<le> snd ?m + 17 * n"
    by blast
  have "snd ?m \<le> k + 9 + 8" by (rule mutate_snd_le)
  then have "k' \<le> k + 17 * Suc n" using k by simp
  then show ?case using b l by (simp add: breed_step[OF lt p1 p2])
qed

subsection \<open>One generation\<close>

lemma selection_length: "length (selection obj rs n) = min (length rs) (n div 2)"
  by (simp add: selection_def length_array_sort)

text \<open>What a generation that does not throw has computed.\<close>

lemma run_generation_Inr:
  assumes "run_generation cfg d rnd st = Inr st'"
  shows "\<exists>rs cb. promise_all (map (\<lambda>s. evaluateStrategy s d) (population st)) = Inr rs \<and>
      reduce_best (objective cfg) rs = Inr cb \<and>
      bestResult st' = Some (update_best (objective cfg) (bestResult st) cb) \<and>
      evaluated st' = evaluated st @ population st"
  using assms
  by (auto simp: run_generation_def Let_def split: sum.splits prod.splits)

text \<open>A generation over at least two candidates does not throw.\<close>

lemma run_generation_succeeds:
  assumes "unit_draws rnd" and "2 \<le> length (population st)"
  shows "\<exists>st'. run_generation cfg d rnd st = Inr st' \<and>
      length (population st') = nat (populationSize cfg) \<and>
      randomCalls st' \<le> randomCalls st + 17 * nat (populationSize cfg)"
proof -
  let ?pop = "population st"
  obtain rs where rs: "promise_all (map (\<lambda>s. evaluateStrategy s d) ?pop) = Inr rs"
    using promise_all_evaluate by blast
  then have len: "length rs = length ?pop"
    using promise_all_length by fastforce
  then have "rs \<noteq> []" using assms(2) by auto
  then obtain cb where cb: "reduce_best (objective cfg) rs = Inr cb"
    using reduce_best_nonempty by blast
  let ?sel = "selection (objective cfg) rs (length ?pop)"
  have "length ?sel = length ?pop div 2"
    by (simp add: selection_length len)
  then have "?sel \<noteq> []" using assms(2) by auto
  from breed_succeeds[OF this assms(1), of cfg "[]" "nat (populationSize cfg)" "randomCalls st"]
  obtain pop' k' where b: "breed cfg rnd ?sel [] (randomCalls st) = Inr (pop', k')"
    and l: "length pop' = nat (populationSize cfg)"
    and k: "k' \<le> randomCalls st + 17 * nat (populationSize cfg)"
    by auto
  show ?thesis
    by (simp add: run_generation_def Let_def rs cb b l k)
qed

subsection \<open>The loop over generations\<close>

lemma generations_loop_stop:
  "\<not> int g < generations cfg \<Longrightarrow> generations_loop cfg d rnd g st = Inr st"
  by (subst generations_loop.simps) simp

lemma generations_loop_step:
  "int g < generations cfg \<Longrightarrow>
   generations_loop cfg d rnd g st =
     (case run_generation cfg d rnd st of
        Inl e \<Rightarrow> Inl e
      | Inr st' \<Rightarrow> generations_loop cfg d rnd (Suc g) st')"
  by (subst generations_loop.simps) simp

lemma generations_loop_succeeds:
  assumes "unit_draws rnd" and "2 \<le> populationSize cfg"
  shows "nat (generations cfg) - g = n \<Longrightarrow> length (population st) = nat (populationSize cfg) \<Longrightarrow>
    \<exists>st'. generations_loop cfg d rnd g st = Inr st' \<and>
      length (evaluated st') = length (evaluated st) + n * nat (populationSize cfg) \<and>
      randomCalls st' \<le> randomCalls st + 17 * nat (populationSize cfg) * n \<and>
      (0 < n \<or> bestResult st \<noteq> None \<longrightarrow> bestResult st' \<noteq> None)"
proof (induction n arbitrary: g st)
  case 0
  then have "\<not> int g < generations cfg" by linarith
  then show ?case by (simp add: generations_loop_stop)
next
  case (Suc n)
  then have lt: "int g < generations cfg" by linarith
  have "2 \<le> length (population st)" using Suc.prems(2) assms(2) by linarith
  from run_generation_succeeds[OF assms(1) this, of cfg d] obtain st1 where
    r: "run_generation cfg d rnd st = Inr st1"
    and l: "length (population st1) = nat (populationSize cfg)"
    and k: "randomCalls st1 \<le> randomCalls st + 17 * nat (populationSize cfg)"
    by blast
  from run_generation_Inr[OF r] have b: "bestResult st1 \<noteq> None"
    and e: "evaluated st1 = evaluated st @ population st"
    by auto
  have "nat (generations cfg) - Suc g = n" using Suc.prems(1) by simp
  from Suc.IH[OF this l] obtain st' where
    g: "generations_loop cfg d rnd (Suc g) st1 = Inr st'"
    and e': "length (evaluated st') = length (evaluated st1) + n * nat (populationSize cfg)"
    and k': "randomCalls st' \<le> randomCalls st1 + 17 * nat (populationSize cfg) * n"
    and b': "0 < n \<or> bestResult st1 \<noteq> None \<longrightarrow> bestResult st' \<noteq> None"
    by blast
  have "randomCalls st' \<le> randomCalls st + 17 * nat (populationSize cfg) * Suc n"
    using k k' by simp
  moreover have "length (evaluated st') = length (evaluated st) + Suc n * nat (populationSize cfg)"
    using e e' Suc.prems(2) by simp
  ultimately show ?case
    using g b b' by (simp add: generations_loop_step[OF lt] r)
qed

subsection \<open>Whole runs\<close>

lemma optimize_returns:
  assumes "unit_draws rnd" and "2 \<le> populationSize cfg" and "1 \<le> generations cfg"
  shows "\<exists>best ev. optimize cfg d rnd = (Inr best, ev) \<and>
     length ev = nat (generations cfg) * nat (populationSize cfg)"
proof -
  let ?init = "\<lparr>population = fst (generateInitialPopulation cfg rnd 0), bestResult = None,
     randomCalls = snd (generateInitialPopulation cfg rnd 0), evaluated = []\<rparr>"
  have "length (population ?init) = nat (populationSize cfg)"
    by (simp add: generateInitialPopulation_length)
  from generations_loop_succeeds[OF assms(1,2) refl this, where g = 0 and d = d]
  obtain st' where g: "generations_loop cfg d rnd 0 ?init = Inr st'"
    and e: "length (evaluated st') = nat (generations cfg) * nat (populationSize cfg)"
    and b: "0 < nat (generations cfg) \<longrightarrow> bestResult st' \<noteq> None"
    by auto
  from b assms(3) obtain best where "bestResult st' = Some best" by auto
  then show ?thesis
    using g e by (simp add: optimize_def optimize_run_def case_prod_beta)
qed

lemma optimize_no_generation:
  assumes "generations cfg \<le> 0"
  shows "optimize cfg d rnd = (Inl OptimizationFailed, [])"
proof -
  have "\<not> int 0 < generations cfg" using assms by simp
  then show ?thesis
    by (simp add: optimize_def optimize_run_def case_prod_beta generations_loop_stop)
qed

lemma generateInitialPopulation_empty:
  "populationSize cfg \<le> 0 \<Longrightarrow> generateInitialPopulation cfg rnd k = ([], k)"
  by (simp add: generateInitialPopulation_def initial_loop_stop)

lemma optimize_no_population:
  assumes "populationSize cfg \<le> 0" and "1 \<le> generations cfg"
  shows "optimize cfg d rnd = (Inl TypeError, [])"
proof -
  have lt: "int 0 < generations cfg" using assms by simp
  show ?thesis
    by (simp add: optimize_def optimize_run_def generateInitialPopulation_empty[OF assms(1)]
        generations_loop_step[OF lt] run_generation_def)
qed

lemma optimize_single:
  assumes "populationSize cfg = 1" and "1 \<le> generations cfg"
  shows "fst (optimize cfg d rnd) = Inl TypeError"
proof -
  have lt: "int 0 < generations cfg" using assms by simp
  obtain s where pop: "fst (generateInitialPopulation cfg rnd 0) = [s]"
    using generateInitialPopulation_length[of cfg rnd 0] assms(1)
    by (cases "fst (generateInitialPopulation cfg rnd 0)") auto
  obtain rs where rs: "promise_all (map (\<lambda>s. evaluateStrategy s d) [s]) = Inr rs"
    using promise_all_evaluate by blast
  then have "length rs = 1" using promise_all_length by fastforce
  then have "rs \<noteq> []" by auto
  then obtain cb where cb: "reduce_best (objective cfg) rs = Inr cb"
    using reduce_best_nonempty by blast
  have sel: "selection (objective cfg) rs (length [s]) = []"
    by (simp add: selection_def)
  have "breed cfg rnd [] [] (snd (generateInitialPopulation cfg rnd 0)) = Inl TypeError"
    using assms(1) by (intro breed_fail) simp
  then have "run_generation cfg d rnd
      \<lparr>population = [s], bestResult = None,
        randomCalls = snd (generateInitialPopulation cfg rnd 0), evaluated = []\<rparr>
      = Inl (TypeError, [s])"
    using rs cb sel by (simp add: run_generation_def Let_def)
  then show ?thesis
    using pop by (simp add: optimize_def optimize_run_def case_prod_beta generations_loop_step[OF lt])
qed

subsection \<open>Short histories: every candidate has the metrics of the empty sequence\<close>

lemma evaluateStrategy_short:
  assumes "length d \<le> 22"
  shows "evaluateStrategy s d = Inr \<lparr>parameters = s, metrics = calculateMetrics []\<rparr>"
proof -
  let ?init = "\<lparr>returns = [], position = 0, entryPrice = Fin 0\<rparr>"
  have "\<exists>st. simulate_loop s d 1 ?init = Inr st \<and> returns st = []"
    using assms by (rule simulate_loop_short) simp_all
  then show ?thesis
    by (auto simp: evaluateStrategy_def trade_returns_def simulate_def)
qed

lemma jgt_irrefl: "\<not> jgt a a"
  by (simp add: jgt_def)

subsection \<open>The best-ever accumulator\<close>

lemma promise_all_mem:
  "promise_all xs = Inr rs \<Longrightarrow> r \<in> set rs \<Longrightarrow> Inr r \<in> set xs"
  by (induction xs arbitrary: rs rule: promise_all.induct) (auto split: sum.splits)

lemma evaluated_candidates:
  assumes "promise_all (map (\<lambda>s. evaluateStrategy s d) pop) = Inr rs" and "r \<in> set rs"
  shows "\<exists>s \<in> set pop. evaluateStrategy s d = Inr r"
  using promise_all_mem[OF assms] by auto

lemma generations_loop_evaluated:
  "nat (generations cfg) - g = n \<Longrightarrow> generations_loop cfg d rnd g st = Inr st' \<Longrightarrow>
   \<exists>more. evaluated st' = evaluated st @ more"
proof (induction n arbitrary: g st)
  case 0
  then have "\<not> int g < generations cfg" by linarith
  then show ?case using "0.prems" by (simp add: generations_loop_stop)
next
  case (Suc n)
  then have lt: "int g < generations cfg" by linarith
  from Suc.prems(2) obtain st1 where r: "run_generation cfg d rnd st = Inr st1"
    and g: "generations_loop cfg d rnd (Suc g) st1 = Inr st'"
    by (auto simp: generations_loop_step[OF lt] split: sum.splits)
  have "nat (generations cfg) - Suc g = n" using Suc.prems(1) by simp
  from Suc.IH[OF this g] run_generation_Inr[OF r] show ?case by auto
qed

text \<open>Across the loop the accumulator is the incumbent or a strictly better result; it is
  the incumbent when no candidate evaluated from here on scores strictly more.\<close>

lemma loop_best:
  "nat (generations cfg) - g = n \<Longrightarrow> bestResult st = Some b \<Longrightarrow>
   generations_loop cfg d rnd g st = Inr st' \<Longrightarrow>
   \<exists>b'. bestResult st' = Some b' \<and>
     (b' = b \<or> jgt (score (objective cfg) b') (score (objective cfg) b)) \<and>
     ((\<forall>s \<in> set (drop (length (evaluated st)) (evaluated st')). \<forall>r.
          evaluateStrategy s d = Inr r \<longrightarrow>
          \<not> jgt (score (objective cfg) r) (score (objective cfg) b)) \<longrightarrow> b' = b)"
proof (induction n arbitrary: g st b)
  case 0
  then have "\<not> int g < generations cfg" by linarith
  then show ?case using "0.prems" by (simp add: generations_loop_stop)
next
  case (Suc n)
  let ?obj = "objective cfg"
  from Suc.prems have lt: "int g < generations cfg" by linarith
  from Suc.prems(3) obtain st1 where r: "run_generation cfg d rnd st = Inr st1"
    and g: "generations_loop cfg d rnd (Suc g) st1 = Inr st'"
    by (auto simp: generations_loop_step[OF lt] split: sum.splits)
  from run_generation_Inr[OF r] obtain rs cb where
    rs: "promise_all (map (\<lambda>s. evaluateStrategy s d) (population st)) = Inr rs"
    and cb: "reduce_best ?obj rs = Inr cb"
    and b1: "bestResult st1 = Some (update_best ?obj (Some b) cb)"
    and e1: "evaluated st1 = evaluated st @ population st"
    using Suc.prems(2) by auto
  let ?b1 = "update_best ?obj (Some b) cb"
  have n: "nat (generations cfg) - Suc g = n" using Suc.prems(1) by simp
  from Suc.IH[OF n b1 g] obtain b' where
    b': "bestResult st' = Some b'"
    and mono: "b' = ?b1 \<or> jgt (score ?obj b') (score ?obj ?b1)"
    and keep: "(\<forall>s \<in> set (drop (length (evaluated st1)) (evaluated st')). \<forall>r.
          evaluateStrategy s d = Inr r \<longrightarrow> \<not> jgt (score ?obj r) (score ?obj ?b1)) \<longrightarrow> b' = ?b1"
    by blast
  have step: "?b1 = b \<or> jgt (score ?obj ?b1) (score ?obj b)"
    by simp
  have "b' = b \<or> jgt (score ?obj b') (score ?obj b)"
    using mono step by (auto simp: jgt_def intro: jlt_trans)
  moreover have "b' = b"
    if all: "\<forall>s \<in> set (drop (length (evaluated st)) (evaluated st')). \<forall>r.
          evaluateStrategy s d = Inr r \<longrightarrow> \<not> jgt (score ?obj r) (score ?obj b)"
  proof -
    obtain more where m: "evaluated st' = evaluated st1 @ more"
      using generations_loop_evaluated[OF n g] by blast
    then have dr: "drop (length (evaluated st)) (evaluated st') = population st @ more"
      and dr1: "drop (length (evaluated st1)) (evaluated st') = more"
      using e1 by simp_all
    from reduce_best_mem[OF cb] evaluated_candidates[OF rs] obtain s where
      "s \<in> set (population st)" and "evaluateStrategy s d = Inr cb" by blast
    then have "\<not> jgt (score ?obj cb) (score ?obj b)" using all dr by auto
    then have eq: "?b1 = b" by simp
    then have "b' = ?b1" using keep all dr dr1 by auto
    then show ?thesis using eq by simp
  qed
  ultimately show ?case using b' by blast
qed

lemma foldl_better_keep:
  "\<forall>r \<in> set rs. \<not> jgt (score obj r) (score obj b) \<Longrightarrow> foldl (better obj) b rs = b"
  by (induction rs) (simp_all add: better_def)

lemma promise_all_short:
  assumes "length d \<le> 22"
  shows "promise_all (map (\<lambda>s. evaluateStrategy s d) pop)
     = Inr (map (\<lambda>s. \<lparr>parameters = s, metrics = calculateMetrics []\<rparr>) pop)"
  by (induction pop) (simp_all add: evaluateStrategy_short[OF assms])

lemma score_metrics: "score obj \<lparr>parameters = s, metrics = m\<rparr> = metric obj m"
  by (simp add: score_def)

text \<open>On a short history every candidate scores the same, so the best-ever result is the
  first candidate of the initial population.\<close>

lemma optimize_short_history:
  assumes "unit_draws rnd" and "2 \<le> populationSize cfg" and "1 \<le> generations cfg"
    and "length d \<le> 22"
  shows "fst (optimize cfg d rnd)
    = Inr \<lparr>parameters = fst (initial_member cfg rnd 0 0), metrics = calculateMetrics []\<rparr>"
proof -
  let ?obj = "objective cfg"
  let ?m0 = "fst (initial_member cfg rnd 0 0)"
  let ?b0 = "\<lparr>parameters = ?m0, metrics = calculateMetrics []\<rparr>"
  let ?pop = "fst (generateInitialPopulation cfg rnd 0)"
  let ?init = "\<lparr>population = ?pop, bestResult = None,
     randomCalls = snd (generateInitialPopulation cfg rnd 0), evaluated = []\<rparr>"
  obtain ms where pop: "?pop = ?m0 # ms"
    using generateInitialPopulation_hd[of cfg rnd 0] assms(2) by auto
  have len: "length (population ?init) = nat (populationSize cfg)"
    by (simp add: generateInitialPopulation_length)
  have lt: "int 0 < generations cfg" using assms(3) by simp
  have "2 \<le> length (population ?init)" using len assms(2) by linarith
  from run_generation_succeeds[OF assms(1) this, of cfg d] obtain st1 where
    r: "run_generation cfg d rnd ?init = Inr st1"
    and l1: "length (population st1) = nat (populationSize cfg)"
    by blast
  have same: "\<not> jgt (score ?obj r) (score ?obj ?b0)"
    if "evaluateStrategy s d = Inr r" for s r
    using that by (auto simp: evaluateStrategy_short[OF assms(4)] score_metrics jgt_irrefl)
  have "reduce_best ?obj (map (\<lambda>s. \<lparr>parameters = s, metrics = calculateMetrics []\<rparr>) ?pop)
      = Inr ?b0"
    unfolding pop by (simp add: foldl_better_keep score_metrics jgt_irrefl)
  with run_generation_Inr[OF r] have b1: "bestResult st1 = Some ?b0"
    by (simp add: promise_all_short[OF assms(4)])
  obtain st' where g: "generations_loop cfg d rnd (Suc 0) st1 = Inr st'"
    using generations_loop_succeeds[OF assms(1,2) refl l1, where g = "Suc 0" and d = d] by blast
  from loop_best[OF refl b1 g] same have "bestResult st' = Some ?b0"
    by blast
  then show ?thesis
    using g r by (simp add: optimize_def optimize_run_def case_prod_beta
        generations_loop_step[OF lt])
qed

subsection \<open>The example configurations\<close>

lemma initial_member_halves:
  "fst (initial_member (cfg0 p g m) halves 0 0)
    = \<lparr>name = Strategy_index 0, description = ''Optimized strategy'', riskLevel = Medium,
       maxPositionSize = Fin (13 / 40), stopLossPercentage = Fin (31 / 4),
       takeProfitPercentage = Fin (13 / 2), maxDrawdown = Fin (31 / 80),
       rebalanceFrequency = Daily, indicators = [''sma'', ''ema'', ''rsi'', ''macd'']\<rparr>"
  by (simp add: initial_member_def randomInRange_def cfg0_def cons0_def halves_def jsub_def)

lemma initial_member_mids:
  "fst (initial_member (cfg0 p g m) mids 0 0)
    = \<lparr>name = Strategy_index 0, description = ''Optimized strategy'', riskLevel = Medium,
       maxPositionSize = Fin (11 / 20), stopLossPercentage = Fin (11 / 2),
       takeProfitPercentage = Fin 11, maxDrawdown = Fin (11 / 40),
       rebalanceFrequency = Daily, indicators = [''sma'', ''ema'', ''rsi'', ''macd'']\<rparr>"
  by (simp add: initial_member_def randomInRange_def cfg0_def cons0_def mids_def jsub_def)

lemma initial_member_bad:
  "fst (initial_member cfg_bad halves 0 0)
    = \<lparr>name = Strategy_index 0, description = ''Optimized strategy'', riskLevel = Medium,
       maxPositionSize = Fin (13 / 40), stopLossPercentage = Fin (13 / 4),
       takeProfitPercentage = Fin (13 / 2), maxDrawdown = Fin (31 / 80),
       rebalanceFrequency = Daily, indicators = [''sma'', ''ema'', ''rsi'', ''macd'']\<rparr>"
  by (simp add: initial_member_def randomInRange_def cfg_bad_def cons_bad_def cfg0_def cons0_def
      halves_def jsub_def)

lemma unit_draws_mids: "unit_draws mids"
  by (simp add: unit_draws_def mids_def)

subsection \<open>A population of one candidate\<close>

text \<open>
  C4. The claim is that \<open>optimize\<close> returns a best candidate, and does not throw, for
  every positive population size. With a population of one candidate and one
  generation the code evaluates the candidate and then throws a \<^verbatim>\<open>TypeError\<close>, for
  every history and whatever \<^verbatim>\<open>Math.random()\<close> returns: the selection of \<open>floor(1 / 2)\<close>
  results is empty, so \<^verbatim>\<open>selected[...]\<close> is \<^verbatim>\<open>undefined\<close> and reading its \<^verbatim>\<open>parameters\<close>
  fails. The theorem evaluates the code there.
\<close>

theorem optimize_population_one:
  "populationSize (cfg0 1 1 m) = 1 \<and> generations (cfg0 1 1 m) = 1 \<and>
   fst (optimize (cfg0 1 1 m) d rnd) = Inl TypeError"
proof -
  have "fst (optimize (cfg0 1 1 m) d rnd) = Inl TypeError"
    by (rule optimize_single) (simp_all add: cfg0_def)
  then show ?thesis by (simp add: cfg0_def)
qed

subsection \<open>Configurations that are not validated\<close>

text \<open>
  C3, as the claim states it, fails: with a stop-loss bound whose minimum 10 exceeds its
  maximum 1 the constructor accepts the configuration and \<open>optimize\<close> evaluates both
  candidates of its one generation and returns a result.
\<close>

theorem unchecked_bounds_counterexample:
  "\<not> valid_bound (c_stopLossPercentage (constraints cfg_bad)) \<and>
   new_optimizer cfg_bad = Inr cfg_bad \<and>
   fst (optimize cfg_bad [] halves)
     = Inr \<lparr>parameters = fst (initial_member cfg_bad halves 0 0),
            metrics = calculateMetrics []\<rparr> \<and>
   stopLossPercentage (fst (initial_member cfg_bad halves 0 0)) = Fin (13 / 4) \<and>
   length (snd (optimize cfg_bad [] halves)) = 2"
proof -
  have p: "populationSize cfg_bad = 2" and g: "generations cfg_bad = 1"
    by (simp_all add: cfg_bad_def cfg0_def)
  have a: "\<not> valid_bound (c_stopLossPercentage (constraints cfg_bad))"
    by (simp add: cfg_bad_def cons_bad_def)
  have b: "fst (optimize cfg_bad [] halves)
     = Inr \<lparr>parameters = fst (initial_member cfg_bad halves 0 0),
            metrics = calculateMetrics []\<rparr>"
    by (rule optimize_short_history) (simp_all add: unit_draws_halves p g)
  obtain best ev where "optimize cfg_bad [] halves = (Inr best, ev)"
    and "length ev = nat (generations cfg_bad) * nat (populationSize cfg_bad)"
    using optimize_returns[of halves cfg_bad "[]"] unit_draws_halves p g by auto
  then have c: "length (snd (optimize cfg_bad [] halves)) = 2"
    by (simp add: p g)
  show ?thesis using a b c by (simp add: new_optimizer_def initial_member_bad)
qed

text \<open>
  C3, amended. A generation count that is not positive makes \<open>optimize\<close> fail with the
  "Optimization failed to find a solution" error, and a population size that is not
  positive (with at least one generation) makes it fail with a \<^verbatim>\<open>TypeError\<close>; in both
  cases no candidate is evaluated. The constructor accepts every configuration.
\<close>

theorem fail_before_simulation:
  "(generations cfg \<le> 0 \<longrightarrow> optimize cfg d rnd = (Inl OptimizationFailed, [])) \<and>
   (populationSize cfg \<le> 0 \<and> 1 \<le> generations cfg \<longrightarrow>
      optimize cfg d rnd = (Inl TypeError, [])) \<and>
   new_optimizer cfg = Inr cfg"
  by (simp add: optimize_no_generation optimize_no_population new_optimizer_def)

theorem fail_before_simulation_witness:
  "optimize (cfg0 2 0 (Fin 0)) hist halves = (Inl OptimizationFailed, []) \<and>
   optimize (cfg0 (- 1) (- 1) (Fin 0)) hist halves = (Inl OptimizationFailed, []) \<and>
   optimize (cfg0 0 1 (Fin 0)) hist halves = (Inl TypeError, [])"
  using fail_before_simulation[of "cfg0 2 0 (Fin 0)" hist halves]
    fail_before_simulation[of "cfg0 (- 1) (- 1) (Fin 0)" hist halves]
    fail_before_simulation[of "cfg0 0 1 (Fin 0)" hist halves]
  by (simp add: cfg0_def)

subsection \<open>The best-ever result\<close>

text \<open>
  C9. Let the loop be entered, at any generation, with an incumbent \<open>b\<close>, and let it end
  without an exception. A current best whose score equals the incumbent's does not
  replace it; the final best-ever result is \<open>b\<close> or a result whose score is strictly
  greater than that of \<open>b\<close>; and it is \<open>b\<close> when no candidate evaluated from there on has
  a score strictly greater than that of \<open>b\<close>.
\<close>

theorem best_replaced_only_by_greater:
  assumes "bestResult st = Some b" and "generations_loop cfg d rnd g st = Inr st'"
  shows "(score (objective cfg) c = score (objective cfg) b \<longrightarrow>
            update_best (objective cfg) (Some b) c = b) \<and>
    (\<exists>b'. bestResult st' = Some b' \<and>
       (b' = b \<or> jgt (score (objective cfg) b') (score (objective cfg) b)) \<and>
       ((\<forall>s \<in> set (drop (length (evaluated st)) (evaluated st')). \<forall>r.
            evaluateStrategy s d = Inr r \<longrightarrow>
            \<not> jgt (score (objective cfg) r) (score (objective cfg) b)) \<longrightarrow> b' = b))"
proof
  show "score (objective cfg) c = score (objective cfg) b \<longrightarrow>
            update_best (objective cfg) (Some b) c = b"
    by (simp add: jgt_irrefl)
  show "\<exists>b'. bestResult st' = Some b' \<and>
       (b' = b \<or> jgt (score (objective cfg) b') (score (objective cfg) b)) \<and>
       ((\<forall>s \<in> set (drop (length (evaluated st)) (evaluated st')). \<forall>r.
            evaluateStrategy s d = Inr r \<longrightarrow>
            \<not> jgt (score (objective cfg) r) (score (objective cfg) b)) \<longrightarrow> b' = b)"
    using loop_best[OF refl assms] .
qed

theorem best_replaced_only_by_greater_witness:
  "bestResult st0 = Some incumbent \<and>
   (\<exists>st'. generations_loop (cfg0 2 3 (Fin 1)) [] halves 0 st0 = Inr st' \<and>
      length (evaluated st') = 6 \<and> bestResult st' = Some incumbent)"
proof -
  let ?cfg = "cfg0 2 3 (Fin 1)"
  have b: "bestResult st0 = Some incumbent" by (simp add: st0_def)
  have "length (population st0) = nat (populationSize ?cfg)"
    by (simp add: st0_def cfg0_def)
  from generations_loop_succeeds[OF unit_draws_halves _ refl this, where g = 0 and d = "[]"]
  obtain st' where g: "generations_loop ?cfg [] halves 0 st0 = Inr st'"
    and e: "length (evaluated st') = 6"
    by (auto simp: cfg0_def st0_def)
  have same: "\<not> jgt (score (objective ?cfg) r) (score (objective ?cfg) incumbent)"
    if "evaluateStrategy s [] = Inr r" for s r
    using that by (auto simp: evaluateStrategy_short score_metrics jgt_irrefl incumbent_def)
  from best_replaced_only_by_greater[OF b g] same have "bestResult st' = Some incumbent"
    by blast
  then show ?thesis using b g e by blast
qed

subsection \<open>Dependence on the draws\<close>

lemma initial_member_agree:
  assumes "\<forall>i<N. r1 i = r2 i" and "k + 4 \<le> N"
  shows "initial_member cfg r1 i k = initial_member cfg r2 i k"
proof -
  have "r1 k = r2 k" "r1 (Suc k) = r2 (Suc k)" "r1 (Suc (Suc k)) = r2 (Suc (Suc k))"
    "r1 (Suc (Suc (Suc k))) = r2 (Suc (Suc (Suc k)))"
    using assms by simp_all
  then show ?thesis
    by (simp add: initial_member_def randomInRange_def split: prod.splits)
qed

lemma initial_loop_agree:
  assumes "\<forall>i<N. r1 i = r2 i"
  shows "nat (populationSize cfg) - i = n \<Longrightarrow> k + 4 * n \<le> N \<Longrightarrow>
    initial_loop cfg r1 i pop k = initial_loop cfg r2 i pop k"
proof (induction n arbitrary: i pop k)
  case 0
  then have "\<not> int i < populationSize cfg" by linarith
  then show ?case by (simp add: initial_loop_stop)
next
  case (Suc n)
  then have lt: "int i < populationSize cfg" by linarith
  have m: "initial_member cfg r1 i k = initial_member cfg r2 i k"
    using Suc.prems(2) by (intro initial_member_agree[OF assms]) simp
  have "nat (populationSize cfg) - Suc i = n" using Suc.prems(1) by simp
  from Suc.IH[OF this, of "k + 4"] Suc.prems(2) show ?case
    by (simp add: initial_loop_step[OF lt] m)
qed

lemma crossover_agree:
  assumes "\<forall>i<N. r1 i = r2 i" and "k + 7 \<le> N"
  shows "crossover r1 k p1 p2 = crossover r2 k p1 p2"
proof -
  have "r1 k = r2 k" "r1 (k + 1) = r2 (k + 1)" "r1 (k + 2) = r2 (k + 2)"
    "r1 (k + 3) = r2 (k + 3)" "r1 (k + 4) = r2 (k + 4)" "r1 (k + 5) = r2 (k + 5)"
    "r1 (k + 6) = r2 (k + 6)"
    using assms by simp_all
  then show ?thesis
    by (simp add: crossover_def coin_def)
qed

lemma mutate_field_agree:
  assumes "\<forall>i<N. r1 i = r2 i" and "k + 2 \<le> N"
  shows "mutate_field cfg r1 k b v = mutate_field cfg r2 k b v"
proof -
  have "r1 k = r2 k" "r1 (Suc k) = r2 (Suc k)" using assms by simp_all
  then show ?thesis by (simp add: mutate_field_def randomInRange_def)
qed

lemma mutate_agree:
  assumes "\<forall>i<N. r1 i = r2 i" and "k + 8 \<le> N"
  shows "mutate cfg r1 k s = mutate cfg r2 k s"
proof -
  let ?a1 = "mutate_field cfg r1 k (c_maxPositionSize (constraints cfg)) (maxPositionSize s)"
  let ?a2 = "mutate_field cfg r2 k (c_maxPositionSize (constraints cfg)) (maxPositionSize s)"
  have a: "?a1 = ?a2" using assms(2) by (intro mutate_field_agree[OF assms(1)]) simp
  have ka: "snd ?a2 \<le> k + 2" by (rule mutate_field_snd_le)
  let ?b1 = "mutate_field cfg r1 (snd ?a2) (c_stopLossPercentage (constraints cfg))
              (stopLossPercentage s)"
  let ?b2 = "mutate_field cfg r2 (snd ?a2) (c_stopLossPercentage (constraints cfg))
              (stopLossPercentage s)"
  have b: "?b1 = ?b2" using assms(2) ka by (intro mutate_field_agree[OF assms(1)]) simp
  have kb: "snd ?b2 \<le> snd ?a2 + 2" by (rule mutate_field_snd_le)
  let ?c1 = "mutate_field cfg r1 (snd ?b2) (c_takeProfitPercentage (constraints cfg))
              (takeProfitPercentage s)"
  let ?c2 = "mutate_field cfg r2 (snd ?b2) (c_takeProfitPercentage (constraints cfg))
              (takeProfitPercentage s)"
  have c: "?c1 = ?c2" using assms(2) ka kb by (intro mutate_field_agree[OF assms(1)]) simp
  have kc: "snd ?c2 \<le> snd ?b2 + 2" by (rule mutate_field_snd_le)
  let ?d1 = "mutate_field cfg r1 (snd ?c2) (c_maxDrawdown (constraints cfg)) (maxDrawdown s)"
  let ?d2 = "mutate_field cfg r2 (snd ?c2) (c_maxDrawdown (constraints cfg)) (maxDrawdown s)"
  have d: "?d1 = ?d2" using assms(2) ka kb kc by (intro mutate_field_agree[OF assms(1)]) simp
  show ?thesis
    by (simp add: mutate_def Let_def case_prod_beta a b c d)
qed

lemma breed_None1:
  "int (length newPop) < populationSize cfg \<Longrightarrow> pick selected (rnd k) = None \<Longrightarrow>
   breed cfg rnd selected newPop k = Inl TypeError"
  by (subst breed.simps) simp

lemma breed_None2:
  "int (length newPop) < populationSize cfg \<Longrightarrow> pick selected (rnd k) = Some r1 \<Longrightarrow>
   pick selected (rnd (k + 1)) = None \<Longrightarrow>
   breed cfg rnd selected newPop k = Inl TypeError"
  by (subst breed.simps) simp

lemma breed_agree:
  assumes "\<forall>i<N. r1 i = r2 i"
  shows "nat (populationSize cfg) - length newPop = n \<Longrightarrow> k + 17 * n \<le> N \<Longrightarrow>
    breed cfg r1 selected newPop k = breed cfg r2 selected newPop k"
proof (induction n arbitrary: newPop k)
  case 0
  then have "\<not> int (length newPop) < populationSize cfg" by linarith
  then show ?case by (simp add: breed_stop)
next
  case (Suc n)
  then have lt: "int (length newPop) < populationSize cfg" by linarith
  have e0: "r1 k = r2 k" and e1: "r1 (k + 1) = r2 (k + 1)"
    using assms Suc.prems(2) by simp_all
  show ?case
  proof (cases "pick selected (r1 k)")
    case None
    then have "breed cfg r1 selected newPop k = Inl TypeError"
      by (intro breed_None1[of newPop cfg selected r1 k]) (simp_all add: lt)
    moreover have "breed cfg r2 selected newPop k = Inl TypeError"
      using None e0 by (intro breed_None1[of newPop cfg selected r2 k]) (simp_all add: lt)
    ultimately show ?thesis by simp
  next
    case (Some x1)
    note s1 = this
    show ?thesis
    proof (cases "pick selected (r1 (k + 1))")
      case None
      then have "breed cfg r1 selected newPop k = Inl TypeError"
        using s1 by (intro breed_None2[of newPop cfg selected r1 k x1]) (simp_all add: lt)
      moreover have "breed cfg r2 selected newPop k = Inl TypeError"
        using s1 None e0 e1 by (intro breed_None2[of newPop cfg selected r2 k x1]) (simp_all add: lt)
      ultimately show ?thesis by simp
    next
      case (Some x2)
      let ?c1 = "crossover r1 (k + 2) (parameters x1) (parameters x2)"
      let ?c2 = "crossover r2 (k + 2) (parameters x1) (parameters x2)"
      have c: "?c1 = ?c2"
        using Suc.prems(2) by (intro crossover_agree[OF assms]) simp
      have m: "mutate cfg r1 (k + 9) (fst ?c2) = mutate cfg r2 (k + 9) (fst ?c2)"
        using Suc.prems(2) by (intro mutate_agree[OF assms]) simp
      let ?m = "mutate cfg r2 (k + 9) (fst ?c2)"
      have "snd ?m \<le> k + 9 + 8" by (rule mutate_snd_le)
      then have bound: "snd ?m + 17 * n \<le> N" using Suc.prems(2) by simp
      have "nat (populationSize cfg) - length (newPop @ [fst ?m]) = n"
        using Suc.prems(1) by simp
      from Suc.IH[OF this bound]
      have "breed cfg r1 selected (newPop @ [fst ?m]) (snd ?m)
          = breed cfg r2 selected (newPop @ [fst ?m]) (snd ?m)" .
      moreover have "breed cfg r1 selected newPop k
          = breed cfg r1 selected (newPop @ [fst ?m]) (snd ?m)"
        using breed_step[OF lt s1 Some] unfolding c m .
      moreover have "breed cfg r2 selected newPop k
          = breed cfg r2 selected (newPop @ [fst ?m]) (snd ?m)"
      proof -
        have "pick selected (r2 k) = Some x1" "pick selected (r2 (k + 1)) = Some x2"
          using s1 Some e0 e1 by simp_all
        then show ?thesis by (rule breed_step[OF lt])
      qed
      ultimately show ?thesis by simp
    qed
  qed
qed

text \<open>The number of draws of a breeding loop that does not throw.\<close>

lemma breed_calls:
  "nat (populationSize cfg) - length newPop = n \<Longrightarrow>
   breed cfg rnd selected newPop k = Inr (pop', k') \<Longrightarrow> k' \<le> k + 17 * n"
proof (induction n arbitrary: newPop k)
  case 0
  then have "\<not> int (length newPop) < populationSize cfg" by linarith
  then show ?case using "0.prems" by (simp add: breed_stop)
next
  case (Suc n)
  then have lt: "int (length newPop) < populationSize cfg" by linarith
  from Suc.prems(2) obtain x1 where s1: "pick selected (rnd k) = Some x1"
    by (cases "pick selected (rnd k)")
       (simp_all add: breed_None1[of newPop cfg selected rnd k, OF lt])
  from Suc.prems(2) obtain x2 where s2: "pick selected (rnd (k + 1)) = Some x2"
    by (cases "pick selected (rnd (k + 1))")
       (simp_all add: breed_None2[of newPop cfg selected rnd k x1, OF lt s1])
  let ?m = "mutate cfg rnd (k + 9) (fst (crossover rnd (k + 2) (parameters x1) (parameters x2)))"
  have b: "breed cfg rnd selected (newPop @ [fst ?m]) (snd ?m) = Inr (pop', k')"
    using Suc.prems(2) by (simp add: breed_step[OF lt s1 s2])
  have "nat (populationSize cfg) - length (newPop @ [fst ?m]) = n"
    using Suc.prems(1) by simp
  from Suc.IH[OF this b] have "k' \<le> snd ?m + 17 * n" .
  moreover have "snd ?m \<le> k + 9 + 8" by (rule mutate_snd_le)
  ultimately show ?case by simp
qed

lemma run_generation_agree:
  assumes "\<forall>i<N. r1 i = r2 i" and "randomCalls st + 17 * nat (populationSize cfg) \<le> N"
  shows "run_generation cfg d r1 st = run_generation cfg d r2 st"
proof -
  have h: "breed cfg r1 selected [] (randomCalls st) = breed cfg r2 selected [] (randomCalls st)"
    for selected
    using assms(2) by (intro breed_agree[OF assms(1), where n = "nat (populationSize cfg)"]) simp_all
  show ?thesis unfolding run_generation_def h by (rule refl)
qed

lemma run_generation_calls:
  assumes "run_generation cfg d rnd st = Inr st'"
  shows "randomCalls st' \<le> randomCalls st + 17 * nat (populationSize cfg)"
proof -
  from assms obtain selected pop' where
    "breed cfg rnd selected [] (randomCalls st) = Inr (pop', randomCalls st')"
    by (auto simp: run_generation_def Let_def split: sum.splits prod.splits)
  from breed_calls[OF _ this, of "nat (populationSize cfg)"] show ?thesis by simp
qed

lemma generations_loop_agree:
  assumes "\<forall>i<N. r1 i = r2 i"
  shows "nat (generations cfg) - g = n \<Longrightarrow>
    randomCalls st + 17 * nat (populationSize cfg) * n \<le> N \<Longrightarrow>
    generations_loop cfg d r1 g st = generations_loop cfg d r2 g st"
proof (induction n arbitrary: g st)
  case 0
  then have "\<not> int g < generations cfg" by linarith
  then show ?case by (simp add: generations_loop_stop)
next
  case (Suc n)
  then have lt: "int g < generations cfg" by linarith
  have r: "run_generation cfg d r1 st = run_generation cfg d r2 st"
    using Suc.prems(2) by (intro run_generation_agree[OF assms]) simp
  show ?case
  proof (cases "run_generation cfg d r2 st")
    case (Inl e)
    then show ?thesis using r by (simp add: generations_loop_step[OF lt])
  next
    case (Inr st1)
    have "randomCalls st1 \<le> randomCalls st + 17 * nat (populationSize cfg)"
      using run_generation_calls[OF Inr] .
    then have bound: "randomCalls st1 + 17 * nat (populationSize cfg) * n \<le> N"
      using Suc.prems(2) by simp
    have "nat (generations cfg) - Suc g = n" using Suc.prems(1) by simp
    from Suc.IH[OF this bound] show ?thesis
      using r Inr by (simp add: generations_loop_step[OF lt])
  qed
qed

lemma optimize_agree:
  assumes "\<forall>i < 4 * nat (populationSize cfg)
                  + 17 * nat (populationSize cfg) * nat (generations cfg). r1 i = r2 i"
  shows "optimize cfg d r1 = optimize cfg d r2"
proof -
  let ?N = "4 * nat (populationSize cfg) + 17 * nat (populationSize cfg) * nat (generations cfg)"
  have i: "generateInitialPopulation cfg r1 0 = generateInitialPopulation cfg r2 0"
    unfolding generateInitialPopulation_def
    by (rule initial_loop_agree[OF assms, where n = "nat (populationSize cfg)"]) simp_all
  let ?init = "\<lparr>population = fst (generateInitialPopulation cfg r2 0), bestResult = None,
     randomCalls = snd (generateInitialPopulation cfg r2 0), evaluated = []\<rparr>"
  have "generations_loop cfg d r1 0 ?init = generations_loop cfg d r2 0 ?init"
    by (rule generations_loop_agree[OF assms, where n = "nat (generations cfg)"])
       (simp_all add: generateInitialPopulation_snd)
  then show ?thesis
    by (simp add: optimize_def optimize_run_def case_prod_beta i)
qed

lemma generateInitialPopulation_agree:
  assumes "\<forall>i < 4 * nat (populationSize cfg). r1 i = r2 i"
  shows "generateInitialPopulation cfg r1 0 = generateInitialPopulation cfg r2 0"
  unfolding generateInitialPopulation_def
  by (rule initial_loop_agree[OF assms, where n = "nat (populationSize cfg)"]) simp_all

subsection \<open>Runs with the same inputs\<close>

text \<open>
  C8, as the claim states it, fails: the code has no seed. With the same configuration
  and the same (empty) history, a run in which \<^verbatim>\<open>Math.random()\<close> returns 1/4, 3/4, 1/4, ...
  and a run in which it returns 1/2 throughout return different best candidates.
\<close>

theorem same_inputs_counterexample:
  "maxPositionSize (parameters (projr (fst (optimize (cfg0 2 1 (Fin 0)) [] halves))))
     = Fin (13 / 40) \<and>
   maxPositionSize (parameters (projr (fst (optimize (cfg0 2 1 (Fin 0)) [] mids))))
     = Fin (11 / 20) \<and>
   fst (optimize (cfg0 2 1 (Fin 0)) [] halves) \<noteq> fst (optimize (cfg0 2 1 (Fin 0)) [] mids)"
proof -
  let ?cfg = "cfg0 2 1 (Fin 0)"
  have a: "fst (optimize ?cfg [] halves)
     = Inr \<lparr>parameters = fst (initial_member ?cfg halves 0 0), metrics = calculateMetrics []\<rparr>"
    by (rule optimize_short_history) (simp_all add: unit_draws_halves cfg0_def)
  have b: "fst (optimize ?cfg [] mids)
     = Inr \<lparr>parameters = fst (initial_member ?cfg mids 0 0), metrics = calculateMetrics []\<rparr>"
    by (rule optimize_short_history) (simp_all add: unit_draws_mids cfg0_def)
  show ?thesis
    unfolding a b by (simp add: initial_member_halves initial_member_mids)
qed

text \<open>
  C8, amended. The result of \<open>optimize\<close> (and the record of evaluated candidates) is
  determined by the configuration, the history and the values that \<^verbatim>\<open>Math.random()\<close>
  returns: two runs with the same configuration and history in which the first
  \<open>4 p + 17 p g\<close> calls return the same values (\<open>p\<close> the population size, \<open>g\<close> the
  generation count) return the same result, and two initial populations for which
  the first \<open>4 p\<close> calls return the same values are the same. The code has no seed
  parameter: the draws come from the ambient \<^verbatim>\<open>Math.random()\<close>.
\<close>

theorem draws_determine_run:
  "((\<forall>i < 4 * nat (populationSize cfg)
            + 17 * nat (populationSize cfg) * nat (generations cfg). rnd1 i = rnd2 i) \<longrightarrow>
      optimize cfg d rnd1 = optimize cfg d rnd2) \<and>
   ((\<forall>i < 4 * nat (populationSize cfg). rnd1 i = rnd2 i) \<longrightarrow>
      generateInitialPopulation cfg rnd1 0 = generateInitialPopulation cfg rnd2 0)"
  using optimize_agree[of cfg rnd1 rnd2 d] generateInitialPopulation_agree[of cfg rnd1 rnd2]
  by blast

theorem draws_determine_run_witness:
  "optimize (cfg0 2 1 (Fin 1)) hist halves = optimize (cfg0 2 1 (Fin 1)) hist halves_then_zero \<and>
   generateInitialPopulation (cfg0 2 1 (Fin 1)) halves 0
     = generateInitialPopulation (cfg0 2 1 (Fin 1)) halves_then_zero 0 \<and>
   halves 100 \<noteq> halves_then_zero 100"
proof -
  let ?cfg = "cfg0 2 1 (Fin 1)"
  have p: "nat (populationSize ?cfg) = 2" and g: "nat (generations ?cfg) = 1"
    by (simp_all add: cfg0_def)
  have a: "\<forall>i < 4 * nat (populationSize ?cfg)
            + 17 * nat (populationSize ?cfg) * nat (generations ?cfg).
          halves i = halves_then_zero i"
    unfolding p g by (simp add: halves_then_zero_def)
  have b: "\<forall>i < 4 * nat (populationSize ?cfg). halves i = halves_then_zero i"
    unfolding p by (simp add: halves_then_zero_def)
  have c: "halves 100 \<noteq> halves_then_zero 100"
    by (simp add: halves_def halves_then_zero_def)
  from draws_determine_run[of ?cfg halves halves_then_zero hist] a b c show ?thesis
    by blast
qed

end
